theory Spec2Isabelle
  imports Complex_Main "HOL-Library.Char_ord" "HOL-Library.List_Lexorder" "HOL-Library.AList"
begin

section \<open>Data model of \<^verbatim>\<open>farmer_gdd_app.py\<close>\<close>

text \<open>
  A calendar date is its proleptic ordinal (an integer number of days); the comparison of
  dates is the one of integers. Python's \<^verbatim>\<open>date\<close> covers the years 1 to 9999, that is the
  ordinals 1 to 3652059, and a \<^verbatim>\<open>timedelta\<close> at most 999999999 days in either direction.
  Temperatures and GDD sums are Python floats; they are modelled as real numbers, so rounding,
  infinities and NaN are outside the model.
\<close>

type_synonym date = int

text \<open>Exceptions that the modelled code can raise.\<close>

datatype error =
    HTTPError nat              \<comment> \<open>raised by \<^verbatim>\<open>r.raise_for_status()\<close>, with \<^verbatim>\<open>r.status_code\<close>\<close>
  | RequestException           \<comment> \<open>any other failure of \<^verbatim>\<open>requests.get\<close>\<close>
  | JSONDecodeError            \<comment> \<open>raised by \<^verbatim>\<open>r.json()\<close>; in \<^verbatim>\<open>requests\<close> a \<^verbatim>\<open>RequestException\<close>\<close>
  | OverflowError              \<comment> \<open>\<^verbatim>\<open>timedelta(days=n)\<close> or \<^verbatim>\<open>date + timedelta\<close> out of range\<close>
  | OutOfBoundsDatetime        \<comment> \<open>\<^verbatim>\<open>pd.to_datetime\<close> on a date that no pandas timestamp holds\<close>
  | KeyError string            \<comment> \<open>\<^verbatim>\<open>d[k]\<close> on a missing key\<close>
  | ValueError                 \<comment> \<open>\<^verbatim>\<open>strptime\<close>, \<^verbatim>\<open>max(())\<close>, \<^verbatim>\<open>int(..)\<close>, \<^verbatim>\<open>geocode_place\<close>\<close>
  | DateParseError             \<comment> \<open>\<^verbatim>\<open>pd.to_datetime\<close> on a start date that it cannot read\<close>
  | UnboundLocalError          \<comment> \<open>\<^verbatim>\<open>data\<close> read though the retry loop never assigned it\<close>
  | GeocoderError              \<comment> \<open>a failure inside the OpenCage client\<close>

text \<open>
  \<^verbatim>\<open>d + timedelta(days=n)\<close>: both the \<^verbatim>\<open>timedelta\<close> and the sum raise \<^verbatim>\<open>OverflowError\<close>
  outside their ranges.
\<close>

definition date_add :: "date \<Rightarrow> int \<Rightarrow> error + date" where
  "date_add d n =
     (if 999999999 < \<bar>n\<bar> then Inl OverflowError
      else if 1 \<le> d + n \<and> d + n \<le> 3652059 then Inr (d + n)
      else Inl OverflowError)"

text \<open>
  A Python \<^verbatim>\<open>dict\<close> with string keys is an association list in insertion order;
  \<^verbatim>\<open>d[k]\<close> raises \<^verbatim>\<open>KeyError\<close> on a missing key.
\<close>

type_synonym 'v pydict = "(string \<times> 'v) list"

definition getitem :: "'v pydict \<Rightarrow> string \<Rightarrow> error + 'v" where
  "getitem d k = (case map_of d k of None \<Rightarrow> Inl (KeyError k) | Some v \<Rightarrow> Inr v)"

text \<open>
  The decoded body of a NASA POWER answer, as far as the client reads it:
  \<^verbatim>\<open>data["properties"]["parameter"]["T2M_MAX"]\<close> is a dict from date strings to numbers.
\<close>

type_synonym series = "real pydict"
type_synonym power_data = "series pydict pydict pydict"

text \<open>One row of the frame returned by the client, and one row of the history.\<close>

record observation =
  date :: date
  T2M_MAX :: real
  T2M_MIN :: real

record gdd_record = observation +
  GDD_day :: real
  GDD_cum :: real

subsection \<open>The outside world\<close>

text \<open>
  One HTTP request to NASA POWER carries the coordinates and the inclusive date range as the
  two \<^verbatim>\<open>%Y%m%d\<close> strings \<^verbatim>\<open>start\<close> and \<^verbatim>\<open>end\<close> (the fixed parameters \<^verbatim>\<open>community\<close>,
  \<^verbatim>\<open>parameters\<close> and \<^verbatim>\<open>format\<close> are left out).
\<close>

record request =
  latitude :: real
  longitude :: real
  range_start :: string
  range_end :: string

datatype net_call = PowerGet request | Geocode string

text \<open>
  What one call of \<^verbatim>\<open>requests.get\<close> gives: an exception below the HTTP level, or a response
  with a status code and a body; the body is \<open>None\<close> when it is not JSON, so that
  \<^verbatim>\<open>r.json()\<close> raises, and the decoded data otherwise.
\<close>

datatype http_outcome = NetworkFailure | Response nat "power_data option"

text \<open>
  The service is any function of the calls made so far and of the present request.
\<close>

type_synonym remote = "net_call list \<Rightarrow> request \<Rightarrow> http_outcome"

text \<open>The Streamlit calls of the program, one constructor for each call site.\<close>

datatype st_msg =
    ServerErrorWarning nat int int     \<comment> \<open>\<^verbatim>\<open>st.warning("NASA POWER server error (..), retry a/n...")\<close>\<close>
  | NetworkErrorWarning int int        \<comment> \<open>\<^verbatim>\<open>st.warning("Network error, retry a/n...")\<close>\<close>
  | FetchingWrite date date            \<comment> \<open>\<^verbatim>\<open>st.write("Fetching NASA POWER data: .. to ..")\<close>\<close>
  | StoppedError date date             \<comment> \<open>\<^verbatim>\<open>st.error("Stopped: could not get data for ..")\<close>\<close>
  | TryLaterInfo                       \<comment> \<open>\<^verbatim>\<open>st.info("Error from NASA POWER or network. ..")\<close>\<close>
  | TargetsError                       \<comment> \<open>\<^verbatim>\<open>st.error("Targets must be integers .. Using defaults.")\<close>\<close>
  | PlaceNameError                     \<comment> \<open>\<^verbatim>\<open>st.error("Please enter a place name.")\<close>\<close>
  | GeocodingWrite                     \<comment> \<open>\<^verbatim>\<open>st.write("Geocoding your place with OpenCage...")\<close>\<close>
  | GeocodeError error                 \<comment> \<open>\<^verbatim>\<open>st.error("Could not geocode that place: ..")\<close>\<close>
  | RunHeader "string option" real real string real
      \<comment> \<open>\<^verbatim>\<open>st.success\<close> with the address (\<open>None\<close> for manual coordinates) and the three \<^verbatim>\<open>st.write\<close>\<close>
  | NoDataWarning                      \<comment> \<open>\<^verbatim>\<open>st.warning("No GDD data could be calculated ..")\<close>\<close>
  | StageWrite real "date option"      \<comment> \<open>\<^verbatim>\<open>st.write("- label: date")\<close>\<close>
  | HistoryTables "gdd_record list"    \<comment> \<open>the tables and the chart of the history\<close>

text \<open>The world: the network calls made and the messages shown, oldest first.\<close>

record world =
  net_log :: "net_call list"
  st_log :: "st_msg list"

definition st_emit :: "st_msg \<Rightarrow> world \<Rightarrow> world" where
  "st_emit m w = w\<lparr>st_log := st_log w @ [m]\<rparr>"

definition net_emit :: "net_call \<Rightarrow> world \<Rightarrow> world" where
  "net_emit c w = w\<lparr>net_log := net_log w @ [c]\<rparr>"

section \<open>NASA POWER block fetch\<close>

text \<open>
  The retry loop \<^verbatim>\<open>for attempt in range(1, max_retries + 1)\<close>. The loop leaves by
  \<^verbatim>\<open>break\<close> with \<^verbatim>\<open>data\<close>, by \<^verbatim>\<open>raise\<close>, or by exhausting the range, which happens only
  when the range is empty; then \<^verbatim>\<open>data\<close> is unbound at the first read after the loop.
  \<^verbatim>\<open>r.raise_for_status()\<close> raises \<^verbatim>\<open>HTTPError\<close> for the statuses 400 to 599. \<^verbatim>\<open>r.json()\<close> is
  inside the \<^verbatim>\<open>try\<close>, and its \<^verbatim>\<open>JSONDecodeError\<close> is a \<^verbatim>\<open>RequestException\<close> (from version
  2.27 of \<^verbatim>\<open>requests\<close> on), so the second handler takes it.
\<close>

function retry_loop ::
  "remote \<Rightarrow> request \<Rightarrow> int \<Rightarrow> int \<Rightarrow> world \<Rightarrow> (error + power_data) \<times> world" where
  "retry_loop rem req max_retries attempt w =
     (if max_retries < attempt then (Inl UnboundLocalError, w)
      else
        let w1 = net_emit (PowerGet req) w in
        case rem (net_log w) req of
          NetworkFailure \<Rightarrow>
            if attempt < max_retries
            then retry_loop rem req max_retries (attempt + 1)
                   (st_emit (NetworkErrorWarning attempt max_retries) w1)
            else (Inl RequestException, w1)
        | Response status_code body \<Rightarrow>
            if 400 \<le> status_code \<and> status_code < 600
            then
              if 500 \<le> status_code \<and> status_code < 600 \<and> attempt < max_retries
              then retry_loop rem req max_retries (attempt + 1)
                     (st_emit (ServerErrorWarning status_code attempt max_retries) w1)
              else (Inl (HTTPError status_code), w1)
            else
              (case body of
                 None \<Rightarrow>
                   if attempt < max_retries
                   then retry_loop rem req max_retries (attempt + 1)
                          (st_emit (NetworkErrorWarning attempt max_retries) w1)
                   else (Inl JSONDecodeError, w1)
               | Some data \<Rightarrow> (Inr data, w1)))"
  by pat_completeness auto
termination
  by (relation "measure (\<lambda>(rem, req, max_retries, attempt, w). nat (max_retries + 1 - attempt))")
     auto

declare retry_loop.simps [simp del]

text \<open>
  The loop over \<^verbatim>\<open>sorted(tmax_dict.keys())\<close>. \<^verbatim>\<open>datetime.strptime(d_str, "%Y%m%d")\<close> is a
  parameter (\<open>None\<close> where it raises \<^verbatim>\<open>ValueError\<close>).
\<close>

fun build_rows ::
  "(string \<Rightarrow> date option) \<Rightarrow> series \<Rightarrow> series \<Rightarrow> string list \<Rightarrow> error + observation list" where
  "build_rows strptime tmax_dict tmin_dict [] = Inr []"
| "build_rows strptime tmax_dict tmin_dict (d_str # ks) =
     (case strptime d_str of
        None \<Rightarrow> Inl ValueError
      | Some date_obj \<Rightarrow>
          (case getitem tmax_dict d_str of
             Inl e \<Rightarrow> Inl e
           | Inr tmax \<Rightarrow>
               (case getitem tmin_dict d_str of
                  Inl e \<Rightarrow> Inl e
                | Inr tmin \<Rightarrow>
                    (case build_rows strptime tmax_dict tmin_dict ks of
                       Inl e \<Rightarrow> Inl e
                     | Inr rows \<Rightarrow>
                         Inr (\<lparr>date = date_obj, T2M_MAX = tmax, T2M_MIN = tmin\<rparr> # rows)))))"

text \<open>Lines 69 to 82: the three lookups, then the rows in the order of the sorted keys.\<close>

definition parse_rows :: "(string \<Rightarrow> date option) \<Rightarrow> power_data \<Rightarrow> error + observation list" where
  "parse_rows strptime data =
     (case getitem data ''properties'' of
        Inl e \<Rightarrow> Inl e
      | Inr properties \<Rightarrow>
          (case getitem properties ''parameter'' of
             Inl e \<Rightarrow> Inl e
           | Inr param_data \<Rightarrow>
               (case getitem param_data ''T2M_MAX'' of
                  Inl e \<Rightarrow> Inl e
                | Inr tmax_dict \<Rightarrow>
                    (case getitem param_data ''T2M_MIN'' of
                       Inl e \<Rightarrow> Inl e
                     | Inr tmin_dict \<Rightarrow>
                         build_rows strptime tmax_dict tmin_dict (sort (map fst tmax_dict))))))"

text \<open>
  \<^verbatim>\<open>get_power_daily_tmax_tmin\<close>. \<^verbatim>\<open>pd.to_datetime(d).strftime("%Y%m%d")\<close> of lines 36 and 37
  is the parameter \<open>strftime\<close> (\<open>None\<close> where \<^verbatim>\<open>pd.to_datetime\<close> raises, as it does for a date
  outside the range of its timestamps); both lines come before the first request.
\<close>

definition get_power_daily_tmax_tmin ::
  "remote \<Rightarrow> (string \<Rightarrow> date option) \<Rightarrow> (date \<Rightarrow> string option) \<Rightarrow> real \<Rightarrow> real \<Rightarrow> date \<Rightarrow> date
     \<Rightarrow> int \<Rightarrow> world \<Rightarrow> (error + observation list) \<times> world" where
  "get_power_daily_tmax_tmin rem strptime strftime lat lon start_date end_date max_retries w =
     (case strftime start_date of
        None \<Rightarrow> (Inl OutOfBoundsDatetime, w)
      | Some start_str \<Rightarrow>
          (case strftime end_date of
             None \<Rightarrow> (Inl OutOfBoundsDatetime, w)
           | Some end_str \<Rightarrow>
               (case retry_loop rem
                       \<lparr>latitude = lat, longitude = lon, range_start = start_str,
                         range_end = end_str\<rparr>
                       max_retries 1 w of
                  (Inl e, w') \<Rightarrow> (Inl e, w')
                | (Inr data, w') \<Rightarrow> (parse_rows strptime data, w'))))"

section \<open>GDD functions\<close>

definition daily_gdd :: "real \<Rightarrow> real \<Rightarrow> real \<Rightarrow> real" where
  "daily_gdd tmax tmin tbase = (let tmean = (tmax + tmin) / 2 in max (tmean - tbase) 0)"

text \<open>
  \<^verbatim>\<open>max(targets)\<close> raises \<^verbatim>\<open>ValueError\<close> on an empty collection.
\<close>

fun py_max :: "real list \<Rightarrow> error + real" where
  "py_max [] = Inl ValueError"
| "py_max (x # xs) = Inr (foldl max x xs)"

text \<open>
  \<^verbatim>\<open>stage_dates\<close> is a dict from threshold to \<^verbatim>\<open>None\<close> or a date, kept in insertion
  order; \<open>AList.update\<close> is the assignment \<^verbatim>\<open>d[k] = v\<close>.
  \<^verbatim>\<open>{thr: None for thr in targets}\<close> assigns every target in turn.
\<close>

type_synonym stage_map = "(real \<times> date option) list"

definition init_stage_dates :: "real list \<Rightarrow> stage_map" where
  "init_stage_dates targets = foldl (\<lambda>d thr. AList.update thr None d) [] targets"

text \<open>
  The loop \<^verbatim>\<open>for thr in targets\<close> of lines 137 to 139. Every target is a key of
  \<^verbatim>\<open>stage_dates\<close> from its creation on (lemmas \<open>map_of_init_stage_dates\<close> and
  \<open>map_of_mark_stages\<close> below), so the lookup \<^verbatim>\<open>stage_dates[thr]\<close> does not raise.
\<close>

fun mark_stages :: "real list \<Rightarrow> real \<Rightarrow> date \<Rightarrow> stage_map \<Rightarrow> stage_map" where
  "mark_stages [] cum_gdd date_d stage_dates = stage_dates"
| "mark_stages (thr # thrs) cum_gdd date_d stage_dates =
     mark_stages thrs cum_gdd date_d
       (if map_of stage_dates thr = Some None \<and> cum_gdd \<ge> thr
        then AList.update thr (Some date_d) stage_dates
        else stage_dates)"

text \<open>
  The variables of \<^verbatim>\<open>simulate_gdd\<close> that change in its loops, and their values before the
  \<^verbatim>\<open>while\<close> loop (lines 101 to 105).
\<close>

record sim_state =
  cum_gdd :: real
  stage_dates :: stage_map
  history_rows :: "gdd_record list"
  current_start :: date

definition initial_state :: "real list \<Rightarrow> date \<Rightarrow> sim_state" where
  "initial_state targets start_d =
     \<lparr>cum_gdd = 0, stage_dates = init_stage_dates targets, history_rows = [],
       current_start = start_d\<rparr>"

text \<open>The body of the loop over the rows of a block, after its \<^verbatim>\<open>break\<close> test.\<close>

definition process_row :: "real \<Rightarrow> real list \<Rightarrow> observation \<Rightarrow> sim_state \<Rightarrow> sim_state" where
  "process_row tbase targets row s =
     (let date_d = date row;
          tmax = T2M_MAX row;
          tmin = T2M_MIN row;
          gdd_day = daily_gdd tmax tmin tbase;
          cum = cum_gdd s + gdd_day
      in s\<lparr>cum_gdd := cum,
           history_rows := history_rows s @
             [\<lparr>date = date_d, T2M_MAX = tmax, T2M_MIN = tmin, GDD_day = gdd_day, GDD_cum = cum\<rparr>],
           stage_dates := mark_stages targets cum date_d (stage_dates s)\<rparr>)"

text \<open>\<^verbatim>\<open>for _, row in df_block.iterrows()\<close>, with the \<^verbatim>\<open>break\<close> of line 121.\<close>

fun process_rows ::
  "real \<Rightarrow> real list \<Rightarrow> real \<Rightarrow> observation list \<Rightarrow> sim_state \<Rightarrow> sim_state" where
  "process_rows tbase targets highest_target [] s = s"
| "process_rows tbase targets highest_target (row # rows) s =
     (if cum_gdd s \<ge> highest_target then s
      else process_rows tbase targets highest_target rows (process_row tbase targets row s))"

text \<open>
  The \<^verbatim>\<open>while\<close> loop of line 108. It does not end for every input (a \<^verbatim>\<open>block_days\<close> below 1
  never moves \<^verbatim>\<open>current_start\<close> forward), so the model counts the iterations it may still
  take: \<open>None\<close> says that the count ran out. Lemma \<open>while_loop_returns\<close> shows that the
  loop ends whenever \<^verbatim>\<open>block_days\<close> is at least 1. The two additions of days (lines 109 and
  141) stand outside the \<^verbatim>\<open>try\<close>, so their \<^verbatim>\<open>OverflowError\<close> leaves the loop and the function;
  an exception of the fetch is caught and ends the loop with the state as it is.
\<close>

fun while_loop ::
  "nat \<Rightarrow> remote \<Rightarrow> (string \<Rightarrow> date option) \<Rightarrow> (date \<Rightarrow> string option) \<Rightarrow> real \<Rightarrow> real \<Rightarrow> real
     \<Rightarrow> real list \<Rightarrow> int \<Rightarrow> real \<Rightarrow> date \<Rightarrow> sim_state \<Rightarrow> world
     \<Rightarrow> ((error + sim_state) \<times> world) option" where
  "while_loop 0 rem strptime strftime lat lon tbase targets block_days highest_target end_date_limit s w
     = None"
| "while_loop (Suc n) rem strptime strftime lat lon tbase targets block_days highest_target end_date_limit
     s w =
     (if cum_gdd s < highest_target \<and> current_start s \<le> end_date_limit
      then
        (case date_add (current_start s) (block_days - 1) of
           Inl e \<Rightarrow> Some (Inl e, w)
         | Inr block_last \<Rightarrow>
             let current_end = min block_last end_date_limit;
                 w1 = st_emit (FetchingWrite (current_start s) current_end) w
             in (case get_power_daily_tmax_tmin rem strptime strftime lat lon (current_start s)
                        current_end 3 w1 of
                   (Inl e, w2) \<Rightarrow>
                     Some (Inr s,
                       st_emit TryLaterInfo
                         (st_emit (StoppedError (current_start s) current_end) w2))
                 | (Inr df_block, w2) \<Rightarrow>
                     (case date_add current_end 1 of
                        Inl e \<Rightarrow> Some (Inl e, w2)
                      | Inr next_start \<Rightarrow>
                          while_loop n rem strptime strftime lat lon tbase targets block_days
                            highest_target end_date_limit
                            ((process_rows tbase targets highest_target df_block s)
                               \<lparr>current_start := next_start\<rparr>)
                            w2)))
      else Some (Inr s, w))"

text \<open>
  The state and the world at the head of the \<^verbatim>\<open>while\<close> loop after \<open>k\<close> complete iterations:
  \<open>None\<close> when the loop has ended before (by its guard, by a failed fetch or by an exception).
  Lemma \<open>while_loop_from_head\<close> shows that the loop goes on from there.
\<close>

fun loop_head ::
  "nat \<Rightarrow> remote \<Rightarrow> (string \<Rightarrow> date option) \<Rightarrow> (date \<Rightarrow> string option) \<Rightarrow> real \<Rightarrow> real \<Rightarrow> real
     \<Rightarrow> real list \<Rightarrow> int \<Rightarrow> real \<Rightarrow> date \<Rightarrow> sim_state \<Rightarrow> world
     \<Rightarrow> (sim_state \<times> world) option" where
  "loop_head 0 rem strptime strftime lat lon tbase targets block_days highest_target end_date_limit s w
     = Some (s, w)"
| "loop_head (Suc k) rem strptime strftime lat lon tbase targets block_days highest_target end_date_limit
     s w =
     (if cum_gdd s < highest_target \<and> current_start s \<le> end_date_limit
      then
        (case date_add (current_start s) (block_days - 1) of
           Inl e \<Rightarrow> None
         | Inr block_last \<Rightarrow>
             let current_end = min block_last end_date_limit;
                 w1 = st_emit (FetchingWrite (current_start s) current_end) w
             in (case get_power_daily_tmax_tmin rem strptime strftime lat lon (current_start s)
                        current_end 3 w1 of
                   (Inl e, w2) \<Rightarrow> None
                 | (Inr df_block, w2) \<Rightarrow>
                     (case date_add current_end 1 of
                        Inl e \<Rightarrow> None
                      | Inr next_start \<Rightarrow>
                          loop_head k rem strptime strftime lat lon tbase targets block_days
                            highest_target end_date_limit
                            ((process_rows tbase targets highest_target df_block s)
                               \<lparr>current_start := next_start\<rparr>)
                            w2)))
      else None)"

text \<open>
  \<^verbatim>\<open>simulate_gdd\<close>. \<^verbatim>\<open>pd.to_datetime(start_date).date()\<close> is the parameter \<open>to_date\<close>
  (\<open>None\<close> where it raises). The result is \<open>None\<close> when the iteration count ran out,
  an exception, or the pair of the history and \<^verbatim>\<open>stage_dates\<close>.
\<close>

definition simulate_gdd ::
  "nat \<Rightarrow> remote \<Rightarrow> (string \<Rightarrow> date option) \<Rightarrow> (date \<Rightarrow> string option) \<Rightarrow> ('d \<Rightarrow> date option)
     \<Rightarrow> real \<Rightarrow> real \<Rightarrow> 'd \<Rightarrow> real \<Rightarrow> real list \<Rightarrow> int \<Rightarrow> int \<Rightarrow> world
     \<Rightarrow> ((error + gdd_record list \<times> stage_map) \<times> world) option" where
  "simulate_gdd fuel rem strptime strftime to_date lat lon start_date tbase targets max_days block_days w =
     (case to_date start_date of
        None \<Rightarrow> Some (Inl DateParseError, w)
      | Some start_d \<Rightarrow>
          (case date_add start_d max_days of
             Inl e \<Rightarrow> Some (Inl e, w)
           | Inr end_date_limit \<Rightarrow>
               (case py_max targets of
                  Inl e \<Rightarrow> Some (Inl e, w)
                | Inr highest_target \<Rightarrow>
                    (case while_loop fuel rem strptime strftime lat lon tbase targets block_days
                            highest_target end_date_limit (initial_state targets start_d) w of
                       None \<Rightarrow> None
                     | Some (Inl e, w') \<Rightarrow> Some (Inl e, w')
                     | Some (Inr s, w') \<Rightarrow> Some (Inr (history_rows s, stage_dates s), w')))))"

section \<open>Geocoding and the Streamlit page\<close>




text \<open>
  The string functions of line 169, on ASCII text: \<^verbatim>\<open>s.split(",")\<close>, \<^verbatim>\<open>s.strip()\<close> and
  \<^verbatim>\<open>int(s)\<close> (an optional sign, then decimal digits that single underscores may separate;
  \<open>None\<close> where it raises \<^verbatim>\<open>ValueError\<close>).
\<close>

fun split_on :: "char \<Rightarrow> string \<Rightarrow> string list" where
  "split_on sep [] = [[]]"
| "split_on sep (c # cs) =
     (if c = sep then [] # split_on sep cs
      else (case split_on sep cs of [] \<Rightarrow> [[c]] | t # ts \<Rightarrow> (c # t) # ts))"

definition is_space :: "char \<Rightarrow> bool" where
  "is_space c \<longleftrightarrow> (9 \<le> (of_char c :: nat) \<and> (of_char c :: nat) \<le> 13)
                  \<or> (28 \<le> (of_char c :: nat) \<and> (of_char c :: nat) \<le> 32)"

definition strip :: "string \<Rightarrow> string" where
  "strip s = rev (dropWhile is_space (rev (dropWhile is_space s)))"

definition is_digit :: "char \<Rightarrow> bool" where
  "is_digit c \<longleftrightarrow> 48 \<le> (of_char c :: nat) \<and> (of_char c :: nat) \<le> 57"

fun py_digits :: "string \<Rightarrow> bool \<Rightarrow> int \<Rightarrow> int option" where
  "py_digits [] after_digit acc = (if after_digit then Some acc else None)"
| "py_digits (c # cs) after_digit acc =
     (if is_digit c then py_digits cs True (10 * acc + (int (of_char c) - 48))
      else if c = CHR ''_'' \<and> after_digit then py_digits cs False acc
      else None)"

definition py_int :: "string \<Rightarrow> int option" where
  "py_int s =
     (case strip s of
        [] \<Rightarrow> None
      | c # cs \<Rightarrow>
          if c = CHR ''-'' then map_option uminus (py_digits cs False 0)
          else if c = CHR ''+'' then py_digits cs False 0
          else py_digits (c # cs) False 0)"

text \<open>
  \<^verbatim>\<open>tuple(sorted({int(x.strip()) for x in targets_input.split(",") if x.strip()}))\<close>;
  \<open>None\<close> where an \<^verbatim>\<open>int(..)\<close> raises \<^verbatim>\<open>ValueError\<close>.
\<close>

definition parse_targets :: "string \<Rightarrow> int list option" where
  "parse_targets targets_input =
     map_option (\<lambda>xs. sort (remdups xs))
       (those (map (\<lambda>x. py_int (strip x))
                 (filter (\<lambda>x. strip x \<noteq> []) (split_on CHR '','' targets_input))))"


text \<open>The values of the widgets of the page in one script run.\<close>

record ui_inputs =
  place_name :: string
  start_date_str :: string
  tbase_input :: real
  use_manual_coords :: bool
  customize_targets :: bool
  targets_input :: string
  run_button :: bool
  latitude_input :: real
  longitude_input :: real




section \<open>Notions used in the statements and proofs\<close>

text \<open>
  The date of the first record of a history whose cumulative GDD has reached a threshold,
  if there is one.
\<close>

definition first_crossing :: "real \<Rightarrow> gdd_record list \<Rightarrow> date option" where
  "first_crossing thr history = map_option date (find (\<lambda>r. thr \<le> GDD_cum r) history)"

text \<open>
  The outcome of the \<open>i\<close>-th further call (counted from 0) of \<^verbatim>\<open>requests.get\<close> for the same
  request; the outcomes after which the retry loop tries again while attempts remain (a failure
  below HTTP, a 5xx status, or a status below 400 or above 599 with a body that is not JSON);
  and the exception that an outcome raises.
\<close>

definition nth_outcome :: "remote \<Rightarrow> request \<Rightarrow> world \<Rightarrow> nat \<Rightarrow> http_outcome" where
  "nth_outcome rem req w i = rem (net_log w @ replicate i (PowerGet req)) req"

fun retried :: "http_outcome \<Rightarrow> bool" where
  "retried NetworkFailure = True"
| "retried (Response status_code body) =
     ((500 \<le> status_code \<and> status_code < 600) \<or>
      (\<not> (400 \<le> status_code \<and> status_code < 600) \<and> body = None))"

fun raised :: "http_outcome \<Rightarrow> error" where
  "raised NetworkFailure = RequestException"
| "raised (Response status_code body) =
     (if 400 \<le> status_code \<and> status_code < 600 then HTTPError status_code else JSONDecodeError)"

text \<open>An entry of \<^verbatim>\<open>stage_dates\<close> that holds a date in \<open>s\<close> holds the same date in \<open>s'\<close>.\<close>

definition keeps_stage :: "real \<Rightarrow> sim_state \<Rightarrow> sim_state \<Rightarrow> bool" where
  "keeps_stage thr s s' \<longleftrightarrow>
     (\<forall>d. map_of (stage_dates s) thr = Some (Some d) \<longrightarrow> map_of (stage_dates s') thr = Some (Some d))"

text \<open>
  The invariants of the loops: every target's entry is the first crossing of the history so far;
  the cumulative sums of the history do not decrease and stay below the running sum; the dates
  of the history increase and stay below the start of the next block.
\<close>

definition stage_inv :: "real list \<Rightarrow> sim_state \<Rightarrow> bool" where
  "stage_inv targets s \<longleftrightarrow>
     (\<forall>thr \<in> set targets. map_of (stage_dates s) thr = Some (first_crossing thr (history_rows s)))"

definition cum_inv :: "sim_state \<Rightarrow> bool" where
  "cum_inv s \<longleftrightarrow>
     sorted_wrt (\<le>) (map GDD_cum (history_rows s)) \<and>
     (\<forall>r \<in> set (history_rows s). GDD_cum r \<le> cum_gdd s)"

definition date_inv :: "sim_state \<Rightarrow> bool" where
  "date_inv s \<longleftrightarrow>
     sorted_wrt (<) (map date (history_rows s)) \<and>
     (\<forall>r \<in> set (history_rows s). date r < current_start s)"

text \<open>
  No record but the last has reached the highest target, and the last record holds the running
  sum.
\<close>

definition target_inv :: "real \<Rightarrow> sim_state \<Rightarrow> bool" where
  "target_inv ht s \<longleftrightarrow>
     (\<forall>r \<in> set (butlast (history_rows s)). GDD_cum r < ht) \<and>
     (history_rows s \<noteq> [] \<longrightarrow> GDD_cum (last (history_rows s)) = cum_gdd s)"

section \<open>Example environments\<close>

text \<open>
  Eleven days of January 2025 with their ordinals: the values of \<^verbatim>\<open>strptime\<close> on these
  keys, of \<^verbatim>\<open>strftime\<close> on these dates, and of \<^verbatim>\<open>pd.to_datetime\<close> on the start date of the
  examples.
\<close>

definition example_calendar :: "(string \<times> date) list" where
  "example_calendar =
     [(''20250101'', 739252), (''20250102'', 739253), (''20250103'', 739254),
      (''20250104'', 739255), (''20250105'', 739256), (''20250106'', 739257),
      (''20250107'', 739258), (''20250108'', 739259), (''20250109'', 739260),
      (''20250110'', 739261), (''20250130'', 739281)]"

definition example_strptime :: "string \<Rightarrow> date option" where
  "example_strptime = map_of example_calendar"

definition example_strftime :: "date \<Rightarrow> string option" where
  "example_strftime = map_of (map (\<lambda>(k, d). (d, k)) example_calendar)"

definition example_to_date :: "string \<Rightarrow> date option" where
  "example_to_date = map_of [(''2025-01-01'', 739252)]"

text \<open>
  A service that answers every request with the days of the calendar inside the requested
  range, each with the same two temperatures.
\<close>

definition example_series :: "request \<Rightarrow> real \<Rightarrow> series" where
  "example_series req v =
     (case (example_strptime (range_start req), example_strptime (range_end req)) of
        (Some lo, Some hi) \<Rightarrow>
          map (\<lambda>(k, d). (k, v)) (filter (\<lambda>(k, d). lo \<le> d \<and> d \<le> hi) example_calendar)
      | _ \<Rightarrow> [])"

definition example_body :: "request \<Rightarrow> power_data" where
  "example_body req =
     [(''properties'',
        [(''parameter'',
           [(''T2M_MAX'', example_series req 30), (''T2M_MIN'', example_series req 20)])])]"

definition example_remote :: remote where
  "example_remote calls req = Response 200 (Some (example_body req))"

text \<open>A service that fails twice with status 503 and answers from the third call on.\<close>

definition flaky_remote :: remote where
  "flaky_remote calls req =
     (if length calls < 2 then Response 503 None else Response 200 (Some (example_body req)))"

text \<open>
  Services that always answer 404, always answer 503, never answer, or always answer 200 with
  a body that is not JSON.
\<close>

definition not_found_remote :: remote where
  "not_found_remote calls req = Response 404 None"

definition unavailable_remote :: remote where
  "unavailable_remote calls req = Response 503 None"

definition unreachable_remote :: remote where
  "unreachable_remote calls req = NetworkFailure"

definition garbled_remote :: remote where
  "garbled_remote calls req = Response 200 None"

text \<open>A service that answers every request with a well-formed body without any day.\<close>

definition empty_remote :: remote where
  "empty_remote calls req =
     Response 200
       (Some [(''properties'', [(''parameter'', [(''T2M_MAX'', []), (''T2M_MIN'', [])])])])"

definition empty_world :: world where
  "empty_world = \<lparr>net_log = [], st_log = []\<rparr>"

definition example_request :: request where
  "example_request =
     \<lparr>latitude = 13, longitude = 80, range_start = ''20250101'', range_end = ''20250110''\<rparr>"

text \<open>
  The scenario of ten days at 30 and 20 degrees with base 10: the history that the run produces
  and the world after it.
\<close>

definition scenario_history :: "gdd_record list" where
  "scenario_history =
     map (\<lambda>i. \<lparr>date = 739251 + i, T2M_MAX = 30, T2M_MIN = 20, GDD_day = 15,
               GDD_cum = 15 * real_of_int i\<rparr>) [1..10]"

definition scenario_world :: world where
  "scenario_world =
     \<lparr>net_log = [PowerGet example_request], st_log = [FetchingWrite 739252 739261]\<rparr>"

text \<open>
  The same scenario with the single target 100 and blocks of eight days: the target is reached
  on the seventh day of the first block. The history, the state at the head of the loop after
  that block, and the world at that moment.
\<close>

definition stop_history :: "gdd_record list" where
  "stop_history =
     map (\<lambda>i. \<lparr>date = 739251 + i, T2M_MAX = 30, T2M_MIN = 20, GDD_day = 15,
               GDD_cum = 15 * real_of_int i\<rparr>) [1..7]"

definition stop_state :: sim_state where
  "stop_state =
     \<lparr>cum_gdd = 105, stage_dates = [(100, Some 739258)], history_rows = stop_history,
       current_start = 739260\<rparr>"

definition stop_world :: world where
  "stop_world =
     \<lparr>net_log = [PowerGet \<lparr>latitude = 13, longitude = 80, range_start = ''20250101'',
                              range_end = ''20250108''\<rparr>],
       st_log = [FetchingWrite 739252 739259]\<rparr>"

text \<open>
  A service that answers the first request and then answers 404, and one that answers the first
  request and then answers without any day. With blocks of five days, the state and the world
  after the first block of the scenario.
\<close>

definition failing_later_remote :: remote where
  "failing_later_remote calls req =
     (if calls = [] then Response 200 (Some (example_body req)) else Response 404 None)"

definition sparse_later_remote :: remote where
  "sparse_later_remote calls req =
     (if calls = [] then Response 200 (Some (example_body req)) else empty_remote calls req)"

definition partial_history :: "gdd_record list" where
  "partial_history =
     map (\<lambda>i. \<lparr>date = 739251 + i, T2M_MAX = 30, T2M_MIN = 20, GDD_day = 15,
               GDD_cum = 15 * real_of_int i\<rparr>) [1..5]"

definition first_block_request :: request where
  "first_block_request =
     \<lparr>latitude = 13, longitude = 80, range_start = ''20250101'', range_end = ''20250105''\<rparr>"

definition second_block_request :: request where
  "second_block_request =
     \<lparr>latitude = 13, longitude = 80, range_start = ''20250106'', range_end = ''20250110''\<rparr>"

definition state_after_first_block :: sim_state where
  "state_after_first_block =
     \<lparr>cum_gdd = 75, stage_dates = [(50, Some 739255), (300, None)],
       history_rows = partial_history, current_start = 739257\<rparr>"

definition world_after_first_block :: world where
  "world_after_first_block =
     \<lparr>net_log = [PowerGet first_block_request], st_log = [FetchingWrite 739252 739256]\<rparr>"

text \<open>
  Three answers: one with fewer days than a range, one whose two series differ in their keys,
  and one with a key that is no date.
\<close>

definition sparse_body :: power_data where
  "sparse_body =
     [(''properties'',
        [(''parameter'',
           [(''T2M_MAX'', [(''20250103'', 31), (''20250101'', 30)]),
            (''T2M_MIN'', [(''20250101'', 20), (''20250102'', 19), (''20250103'', 21)])])])]"

definition mismatched_body :: power_data where
  "mismatched_body =
     [(''properties'',
        [(''parameter'',
           [(''T2M_MAX'', [(''20250101'', 30), (''20250102'', 31)]),
            (''T2M_MIN'', [(''20250101'', 20)])])])]"

definition undated_body :: power_data where
  "undated_body =
     [(''properties'',
        [(''parameter'',
           [(''T2M_MAX'', [(''20250102'', 31), (''20250101x'', 30)]),
            (''T2M_MIN'', [])])])]"




section \<open>The daily heat unit\<close>

lemma daily_gdd_nonneg: "0 \<le> daily_gdd tmax tmin tbase"
  by (simp add: daily_gdd_def)

text \<open>
  Claim C2. For all real \<open>tmax\<close>, \<open>tmin\<close> and \<open>tbase\<close>, \<open>daily_gdd\<close> is the maximum of the
  mean minus the base and 0: it is never negative, it is the mean minus the base where that
  difference is not negative, and 0 otherwise. The function is a total function of its three
  arguments and touches no state.
\<close>

theorem daily_gdd_spec:
  "daily_gdd tmax tmin tbase = max (((tmax + tmin) / 2) - tbase) 0
   \<and> 0 \<le> daily_gdd tmax tmin tbase
   \<and> (0 \<le> (tmax + tmin) / 2 - tbase \<longrightarrow> daily_gdd tmax tmin tbase = (tmax + tmin) / 2 - tbase)
   \<and> ((tmax + tmin) / 2 - tbase < 0 \<longrightarrow> daily_gdd tmax tmin tbase = 0)"
  by (simp add: daily_gdd_def Let_def)

theorem daily_gdd_spec_witness:
  "daily_gdd 30 20 10 = 15 \<and> daily_gdd 5 1 10 = 0"
  using daily_gdd_spec [of 30 20 10] daily_gdd_spec [of 5 1 10] by simp

section \<open>The retry policy of the block fetch\<close>

text \<open>
  As long as the outcomes are of the retried kind and attempts remain, the loop goes on to the
  next attempt, and each attempt adds one request to the log.
\<close>

lemma retry_loop_skip:
  "(\<forall>i<j. retried (nth_outcome rem req w i)) \<Longrightarrow> a + int j \<le> N \<Longrightarrow>
   \<exists>w'. retry_loop rem req N a w = retry_loop rem req N (a + int j) w'
        \<and> net_log w' = net_log w @ replicate j (PowerGet req)"
proof (induction j arbitrary: a w)
  case 0
  then show ?case by auto
next
  case (Suc j)
  have t0: "retried (rem (net_log w) req)"
    using Suc.prems(1) by (auto simp: nth_outcome_def dest: spec [of _ 0])
  have le: "a < N" "\<not> N < a" using Suc.prems(2) by auto
  obtain w1 where step: "retry_loop rem req N a w = retry_loop rem req N (a + 1) w1"
    and log1: "net_log w1 = net_log w @ [PowerGet req]"
    using t0 le
    by (cases "rem (net_log w) req")
       (auto simp: retry_loop.simps [of rem req N a w] net_emit_def st_emit_def Let_def
          split: option.splits)
  have "\<forall>i<j. retried (nth_outcome rem req w1 i)"
  proof (intro allI impI)
    fix i assume "i < j"
    then have "retried (nth_outcome rem req w (Suc i))" using Suc.prems(1) by auto
    then show "retried (nth_outcome rem req w1 i)"
      by (simp add: nth_outcome_def log1 replicate_app_Cons_same)
  qed
  moreover have "(a + 1) + int j \<le> N" using Suc.prems(2) by simp
  ultimately obtain w' where
    "retry_loop rem req N (a + 1) w1 = retry_loop rem req N ((a + 1) + int j) w'"
    "net_log w' = net_log w1 @ replicate j (PowerGet req)"
    using Suc.IH [of w1 "a + 1"] by blast
  then show ?case
    using step log1 by (auto simp: add.assoc replicate_app_Cons_same intro!: exI [of _ w'])
qed


lemma retry_loop_success:
  "rem (net_log w) req = Response sc (Some data) \<Longrightarrow> \<not> (400 \<le> sc \<and> sc < 600) \<Longrightarrow> a \<le> N \<Longrightarrow>
   retry_loop rem req N a w = (Inr data, net_emit (PowerGet req) w)"
  by (simp add: retry_loop.simps [of rem req N a w] Let_def)

lemma retry_loop_client_error:
  "rem (net_log w) req = Response sc body \<Longrightarrow> 400 \<le> sc \<Longrightarrow> sc < 500 \<Longrightarrow> a \<le> N \<Longrightarrow>
   retry_loop rem req N a w = (Inl (HTTPError sc), net_emit (PowerGet req) w)"
  by (simp add: retry_loop.simps [of rem req N a w] Let_def)

lemma retry_loop_exhausted:
  "retried (rem (net_log w) req) \<Longrightarrow>
   retry_loop rem req N N w = (Inl (raised (rem (net_log w) req)), net_emit (PowerGet req) w)"
  by (cases "rem (net_log w) req")
     (auto simp: retry_loop.simps [of rem req N N w] Let_def split: option.splits)

text \<open>
  Claim C6, as the code has it. Let the two dates of the block have their \<^verbatim>\<open>%Y%m%d\<close> strings,
  let \<open>N\<close> be the bound \<^verbatim>\<open>max_retries\<close> and let each of the first \<open>k - 1\<close> attempts
  (\<open>1 \<le> k \<le> N\<close>) meet a condition that the loop retries: a 5xx status, a failure below HTTP, or
  an answer without error status whose body is not JSON. If attempt \<open>k\<close> succeeds, the fetch
  returns the rows parsed from that answer; if \<open>k = N\<close> and attempt \<open>k\<close> meets such a condition
  too, the fetch raises the exception of that last attempt; if attempt \<open>k\<close> answers with a 4xx
  status, the fetch raises that \<^verbatim>\<open>HTTPError\<close>. In each case exactly \<open>k\<close> requests were sent, so
  nothing is tried after the deciding attempt.
\<close>

theorem fetch_retry_policy:
  fixes N :: int and k :: nat
  assumes k: "1 \<le> k" "int k \<le> N"
    and dates: "strftime lo = Some lo_str" "strftime hi = Some hi_str"
    and req: "req = \<lparr>latitude = lat, longitude = lon, range_start = lo_str, range_end = hi_str\<rparr>"
    and res: "res = get_power_daily_tmax_tmin rem strptime strftime lat lon lo hi N w"
    and failures: "\<forall>i<k - 1. retried (nth_outcome rem req w i)"
  shows "(\<forall>sc data. nth_outcome rem req w (k - 1) = Response sc (Some data) \<and>
                    \<not> (400 \<le> sc \<and> sc < 600) \<longrightarrow>
            fst res = parse_rows strptime data \<and>
            net_log (snd res) = net_log w @ replicate k (PowerGet req)) \<and>
         (int k = N \<and> retried (nth_outcome rem req w (k - 1)) \<longrightarrow>
            fst res = Inl (raised (nth_outcome rem req w (k - 1))) \<and>
            net_log (snd res) = net_log w @ replicate k (PowerGet req)) \<and>
         (\<forall>sc body. nth_outcome rem req w (k - 1) = Response sc body \<and> 400 \<le> sc \<and> sc < 500 \<longrightarrow>
            fst res = Inl (HTTPError sc) \<and>
            net_log (snd res) = net_log w @ replicate k (PowerGet req))"
proof -
  have "1 + int (k - 1) \<le> N" using k by simp
  with failures obtain w' where
    skip: "retry_loop rem req N 1 w = retry_loop rem req N (1 + int (k - 1)) w'"
    and log': "net_log w' = net_log w @ replicate (k - 1) (PowerGet req)"
    using retry_loop_skip [of "k - 1" rem req w 1 N] by blast
  have att: "1 + int (k - 1) = int k" using k by simp
  have skip': "retry_loop rem req N 1 w = retry_loop rem req N (int k) w'"
    using skip unfolding att .
  have last: "nth_outcome rem req w (k - 1) = rem (net_log w') req"
    by (simp add: nth_outcome_def log')
  have logk: "net_log (net_emit (PowerGet req) w') = net_log w @ replicate k (PowerGet req)"
    using k(1) by (cases k) (simp_all add: net_emit_def log' replicate_append_same)
  have "res = (case retry_loop rem req N 1 w of
                 (Inl e, w2) \<Rightarrow> (Inl e, w2)
               | (Inr data, w2) \<Rightarrow> (parse_rows strptime data, w2))"
    by (simp add: res get_power_daily_tmax_tmin_def dates req)
  then have run: "res = (case retry_loop rem req N (int k) w' of
                      (Inl e, w2) \<Rightarrow> (Inl e, w2)
                    | (Inr data, w2) \<Rightarrow> (parse_rows strptime data, w2))"
    by (simp only: skip')
  show ?thesis
  proof (intro conjI allI impI)
    fix sc data
    assume "nth_outcome rem req w (k - 1) = Response sc (Some data) \<and> \<not> (400 \<le> sc \<and> sc < 600)"
    then have "retry_loop rem req N (int k) w' = (Inr data, net_emit (PowerGet req) w')"
      using retry_loop_success [of rem w' req sc data "int k" N] k(2) last by simp
    then show "fst res = parse_rows strptime data"
      and "net_log (snd res) = net_log w @ replicate k (PowerGet req)"
      by (simp_all add: run logk)
  next
    assume a: "int k = N \<and> retried (nth_outcome rem req w (k - 1))"
    then have "retry_loop rem req N (int k) w'
               = (Inl (raised (rem (net_log w') req)), net_emit (PowerGet req) w')"
      using retry_loop_exhausted [of rem w' req N] last by simp
    then show "fst res = Inl (raised (nth_outcome rem req w (k - 1)))"
      and "net_log (snd res) = net_log w @ replicate k (PowerGet req)"
      using last by (simp_all add: run logk)
  next
    fix sc body
    assume "nth_outcome rem req w (k - 1) = Response sc body \<and> 400 \<le> sc \<and> sc < 500"
    then have "retry_loop rem req N (int k) w' = (Inl (HTTPError sc), net_emit (PowerGet req) w')"
      using retry_loop_client_error [of rem w' req sc body "int k" N] k(2) last by simp
    then show "fst res = Inl (HTTPError sc)"
      and "net_log (snd res) = net_log w @ replicate k (PowerGet req)"
      by (simp_all add: run logk)
  qed
qed

lemma example_dates:
  "example_strftime 739252 = Some ''20250101''" "example_strftime 739261 = Some ''20250110''"
  by (simp_all add: example_strftime_def example_calendar_def)

theorem fetch_retry_policy_witness:
  "fst (get_power_daily_tmax_tmin flaky_remote example_strptime example_strftime 13 80 739252
        739261 3 empty_world)
     = parse_rows example_strptime (example_body example_request)
   \<and> net_log (snd (get_power_daily_tmax_tmin flaky_remote example_strptime example_strftime 13 80
        739252 739261 3 empty_world)) = replicate 3 (PowerGet example_request)
   \<and> fst (get_power_daily_tmax_tmin unavailable_remote example_strptime example_strftime 13 80
        739252 739261 3 empty_world) = Inl (HTTPError 503)
   \<and> fst (get_power_daily_tmax_tmin unreachable_remote example_strptime example_strftime 13 80
        739252 739261 3 empty_world) = Inl RequestException
   \<and> fst (get_power_daily_tmax_tmin garbled_remote example_strptime example_strftime 13 80
        739252 739261 3 empty_world) = Inl JSONDecodeError
   \<and> fst (get_power_daily_tmax_tmin not_found_remote example_strptime example_strftime 13 80
        739252 739261 3 empty_world) = Inl (HTTPError 404)
   \<and> net_log (snd (get_power_daily_tmax_tmin not_found_remote example_strptime example_strftime
        13 80 739252 739261 3 empty_world)) = [PowerGet example_request]"
  using fetch_retry_policy [where k = 3 and N = 3 and req = example_request and lat = 13
          and lon = 80 and lo = 739252 and hi = 739261 and rem = flaky_remote
          and strptime = example_strptime and strftime = example_strftime and w = empty_world,
          OF _ _ example_dates _ refl]
        fetch_retry_policy [where k = 3 and N = 3 and req = example_request and lat = 13
          and lon = 80 and lo = 739252 and hi = 739261 and rem = unavailable_remote
          and strptime = example_strptime and strftime = example_strftime and w = empty_world,
          OF _ _ example_dates _ refl]
        fetch_retry_policy [where k = 3 and N = 3 and req = example_request and lat = 13
          and lon = 80 and lo = 739252 and hi = 739261 and rem = unreachable_remote
          and strptime = example_strptime and strftime = example_strftime and w = empty_world,
          OF _ _ example_dates _ refl]
        fetch_retry_policy [where k = 3 and N = 3 and req = example_request and lat = 13
          and lon = 80 and lo = 739252 and hi = 739261 and rem = garbled_remote
          and strptime = example_strptime and strftime = example_strftime and w = empty_world,
          OF _ _ example_dates _ refl]
        fetch_retry_policy [where k = 1 and N = 3 and req = example_request and lat = 13
          and lon = 80 and lo = 739252 and hi = 739261 and rem = not_found_remote
          and strptime = example_strptime and strftime = example_strftime and w = empty_world,
          OF _ _ example_dates _ refl]
  by (simp add: nth_outcome_def flaky_remote_def unavailable_remote_def not_found_remote_def
        unreachable_remote_def garbled_remote_def example_request_def empty_world_def
        less_Suc_eq numeral_3_eq_3)

text \<open>
  Claim C6 as stated fails: an answer with status 200 whose body is not JSON is neither a 5xx
  status nor a failure below HTTP, yet the fetch does not fail at once; it warns of a network
  error twice and sends three requests before it raises.
\<close>

theorem non_json_body_is_retried_counterexample:
  "get_power_daily_tmax_tmin garbled_remote example_strptime example_strftime 13 80 739252
     739261 3 empty_world
   = (Inl JSONDecodeError,
      \<lparr>net_log = [PowerGet example_request, PowerGet example_request, PowerGet example_request],
        st_log = [NetworkErrorWarning 1 3, NetworkErrorWarning 2 3]\<rparr>)"
  by code_simp

section \<open>Parsing an answer\<close>

lemma build_rows_dates:
  "build_rows strptime tmax_dict tmin_dict ks = Inr rows \<Longrightarrow>
   map (\<lambda>r. Some (date r)) rows = map strptime ks"
  by (induction ks arbitrary: rows) (auto split: option.splits sum.splits)

lemma build_rows_complete:
  "\<forall>k \<in> set ks. strptime k \<noteq> None \<and> k \<in> fst ` set tmax_dict \<and> k \<in> fst ` set tmin_dict \<Longrightarrow>
   build_rows strptime tmax_dict tmin_dict ks =
     Inr (map (\<lambda>k. \<lparr>date = the (strptime k), T2M_MAX = the (map_of tmax_dict k),
                     T2M_MIN = the (map_of tmin_dict k)\<rparr>) ks)"
proof (induction ks)
  case Nil
  show ?case by simp
next
  case (Cons k ks)
  from Cons.prems have "strptime k \<noteq> None" "map_of tmax_dict k \<noteq> None"
    "map_of tmin_dict k \<noteq> None"
    by (simp_all add: map_of_eq_None_iff)
  then obtain d x n where
    "strptime k = Some d" "map_of tmax_dict k = Some x" "map_of tmin_dict k = Some n"
    by blast
  moreover have "build_rows strptime tmax_dict tmin_dict ks =
     Inr (map (\<lambda>k. \<lparr>date = the (strptime k), T2M_MAX = the (map_of tmax_dict k),
                     T2M_MIN = the (map_of tmin_dict k)\<rparr>) ks)"
    using Cons.prems by (intro Cons.IH) simp
  ultimately show ?case by (simp add: getitem_def)
qed

lemma build_rows_first_bad:
  assumes "sorted ks" and "k \<in> set ks" and "set ks \<subseteq> fst ` set tmax_dict"
    and "strptime k = None \<or> k \<notin> fst ` set tmin_dict"
    and "\<forall>j \<in> set ks. j < k \<longrightarrow> strptime j \<noteq> None \<and> j \<in> fst ` set tmin_dict"
  shows "build_rows strptime tmax_dict tmin_dict ks =
           Inl (if strptime k = None then ValueError else KeyError k)"
  using assms
proof (induction ks)
  case Nil
  then show ?case by simp
next
  case (Cons x xs)
  from Cons.prems(3) have "map_of tmax_dict x \<noteq> None"
    by (simp add: map_of_eq_None_iff)
  then obtain v where v: "map_of tmax_dict x = Some v" by blast
  show ?case
  proof (cases "x = k")
    case True
    show ?thesis
    proof (cases "strptime k")
      case None
      with True show ?thesis by simp
    next
      case (Some d)
      with Cons.prems(4) have "map_of tmin_dict k = None"
        by (simp add: map_of_eq_None_iff)
      with True Some v show ?thesis by (simp add: getitem_def)
    qed
  next
    case False
    with Cons.prems(1,2) have lt: "x < k" and k: "k \<in> set xs" by auto
    with Cons.prems(5) have "strptime x \<noteq> None" "map_of tmin_dict x \<noteq> None"
      by (simp_all add: map_of_eq_None_iff)
    then obtain d n where dn: "strptime x = Some d" "map_of tmin_dict x = Some n" by blast
    have "build_rows strptime tmax_dict tmin_dict xs =
            Inl (if strptime k = None then ValueError else KeyError k)"
      using Cons.prems k by (intro Cons.IH) auto
    with dn v show ?thesis by (simp add: getitem_def)
  qed
qed

text \<open>
  Claim C7, as the code has it. The client walks the keys of \<^verbatim>\<open>T2M_MAX\<close> only, in ascending
  order. When every one of them is a date and is a key of \<^verbatim>\<open>T2M_MIN\<close> as well, the client returns
  one observation for each key of \<^verbatim>\<open>T2M_MAX\<close>, in the order of the sorted keys, with the two
  values of that key, however few days the answer holds; keys that only \<^verbatim>\<open>T2M_MIN\<close> has are
  passed over. Otherwise the client returns no observation: it raises at the first key of
  \<^verbatim>\<open>T2M_MAX\<close>, in ascending order, that is not a date or is missing in \<^verbatim>\<open>T2M_MIN\<close>, with
  \<^verbatim>\<open>ValueError\<close> when that key is not a date and with \<^verbatim>\<open>KeyError\<close> of that key when it is a
  date that \<^verbatim>\<open>T2M_MIN\<close> lacks.
\<close>

theorem parse_rows_by_tmax_keys:
  assumes "getitem data ''properties'' = Inr properties"
    and "getitem properties ''parameter'' = Inr param_data"
    and "getitem param_data ''T2M_MAX'' = Inr tmax_dict"
    and "getitem param_data ''T2M_MIN'' = Inr tmin_dict"
  shows "((\<forall>k \<in> fst ` set tmax_dict. strptime k \<noteq> None \<and> k \<in> fst ` set tmin_dict) \<longrightarrow>
            parse_rows strptime data =
              Inr (map (\<lambda>k. \<lparr>date = the (strptime k), T2M_MAX = the (map_of tmax_dict k),
                              T2M_MIN = the (map_of tmin_dict k)\<rparr>)
                     (sort (map fst tmax_dict)))) \<and>
         (\<forall>k \<in> fst ` set tmax_dict.
            (strptime k = None \<or> k \<notin> fst ` set tmin_dict) \<and>
            (\<forall>j \<in> fst ` set tmax_dict. j < k \<longrightarrow> strptime j \<noteq> None \<and> j \<in> fst ` set tmin_dict)
            \<longrightarrow> parse_rows strptime data =
                  Inl (if strptime k = None then ValueError else KeyError k))"
proof -
  have eq: "parse_rows strptime data =
              build_rows strptime tmax_dict tmin_dict (sort (map fst tmax_dict))"
    using assms by (simp add: parse_rows_def)
  show ?thesis
    unfolding eq
  proof (intro conjI impI ballI)
    assume "\<forall>k \<in> fst ` set tmax_dict. strptime k \<noteq> None \<and> k \<in> fst ` set tmin_dict"
    then show "build_rows strptime tmax_dict tmin_dict (sort (map fst tmax_dict)) =
              Inr (map (\<lambda>k. \<lparr>date = the (strptime k), T2M_MAX = the (map_of tmax_dict k),
                              T2M_MIN = the (map_of tmin_dict k)\<rparr>)
                     (sort (map fst tmax_dict)))"
      by (intro build_rows_complete) auto
  next
    fix k
    assume "k \<in> fst ` set tmax_dict"
      and "(strptime k = None \<or> k \<notin> fst ` set tmin_dict) \<and>
           (\<forall>j \<in> fst ` set tmax_dict. j < k \<longrightarrow> strptime j \<noteq> None \<and> j \<in> fst ` set tmin_dict)"
    then show "build_rows strptime tmax_dict tmin_dict (sort (map fst tmax_dict)) =
                 Inl (if strptime k = None then ValueError else KeyError k)"
      by (intro build_rows_first_bad) auto
  qed
qed

theorem parse_rows_by_tmax_keys_witness:
  "parse_rows example_strptime sparse_body =
     Inr [\<lparr>date = 739252, T2M_MAX = 30, T2M_MIN = 20\<rparr>, \<lparr>date = 739254, T2M_MAX = 31, T2M_MIN = 21\<rparr>]
   \<and> parse_rows example_strptime mismatched_body = Inl (KeyError ''20250102'')
   \<and> parse_rows example_strptime undated_body = Inl ValueError"
  using parse_rows_by_tmax_keys [of sparse_body
          "[(''parameter'',
             [(''T2M_MAX'', [(''20250103'', 31), (''20250101'', 30)]),
              (''T2M_MIN'', [(''20250101'', 20), (''20250102'', 19), (''20250103'', 21)])])]"
          "[(''T2M_MAX'', [(''20250103'', 31), (''20250101'', 30)]),
            (''T2M_MIN'', [(''20250101'', 20), (''20250102'', 19), (''20250103'', 21)])]"
          "[(''20250103'', 31), (''20250101'', 30)]"
          "[(''20250101'', 20), (''20250102'', 19), (''20250103'', 21)]" example_strptime]
        parse_rows_by_tmax_keys [of mismatched_body
          "[(''parameter'',
             [(''T2M_MAX'', [(''20250101'', 30), (''20250102'', 31)]),
              (''T2M_MIN'', [(''20250101'', 20)])])]"
          "[(''T2M_MAX'', [(''20250101'', 30), (''20250102'', 31)]),
            (''T2M_MIN'', [(''20250101'', 20)])]"
          "[(''20250101'', 30), (''20250102'', 31)]"
          "[(''20250101'', 20)]" example_strptime]
        parse_rows_by_tmax_keys [of undated_body
          "[(''parameter'',
             [(''T2M_MAX'', [(''20250102'', 31), (''20250101x'', 30)]),
              (''T2M_MIN'', [])])]"
          "[(''T2M_MAX'', [(''20250102'', 31), (''20250101x'', 30)]),
            (''T2M_MIN'', [])]"
          "[(''20250102'', 31), (''20250101x'', 30)]"
          "[]" example_strptime]
  by (simp add: sparse_body_def mismatched_body_def undated_body_def getitem_def
        example_strptime_def example_calendar_def)

text \<open>
  Claim C7 as stated fails: in this answer 1 January is present for both variables and
  2 January for \<^verbatim>\<open>T2M_MAX\<close> only; the client returns no observation at all and raises
  \<^verbatim>\<open>KeyError\<close>.
\<close>

theorem parse_rows_key_mismatch_counterexample:
  "parse_rows example_strptime mismatched_body = Inl (KeyError ''20250102'')"
  by code_simp

section \<open>The loops of the engine\<close>

lemma date_add_Inr: "date_add d n = Inr d' \<Longrightarrow> d' = d + n"
  by (auto simp: date_add_def split: if_splits)

text \<open>
  A property of the state that every complete iteration of the \<^verbatim>\<open>while\<close> loop keeps holds of the
  state with which the loop ends.
\<close>

lemma while_loop_invariant:
  assumes "while_loop fuel rem strptime strftime lat lon tbase targets block_days ht limit s w
             = Some (Inr s', w')"
    and "P s"
    and step: "\<And>s w block_last rows w2 next_start.
        P s \<Longrightarrow> cum_gdd s < ht \<Longrightarrow> current_start s \<le> limit \<Longrightarrow>
        date_add (current_start s) (block_days - 1) = Inr block_last \<Longrightarrow>
        get_power_daily_tmax_tmin rem strptime strftime lat lon (current_start s) (min block_last limit) 3
          (st_emit (FetchingWrite (current_start s) (min block_last limit)) w) = (Inr rows, w2) \<Longrightarrow>
        date_add (min block_last limit) 1 = Inr next_start \<Longrightarrow>
        P ((process_rows tbase targets ht rows s)\<lparr>current_start := next_start\<rparr>)"
  shows "P s'"
  using assms(1,2)
proof (induction fuel arbitrary: s w)
  case 0
  then show ?case by simp
next
  case (Suc n)
  show ?case
  proof (cases "cum_gdd s < ht \<and> current_start s \<le> limit")
    case False
    with Suc.prems show ?thesis by auto
  next
    case True
    show ?thesis
    proof (cases "date_add (current_start s) (block_days - 1)")
      case (Inl e)
      with Suc.prems True show ?thesis by simp
    next
      case block: (Inr block_last)
      let ?ce = "min block_last limit"
      obtain r w2 where f: "get_power_daily_tmax_tmin rem strptime strftime lat lon (current_start s) ?ce 3
            (st_emit (FetchingWrite (current_start s) ?ce) w) = (r, w2)"
        by (cases "get_power_daily_tmax_tmin rem strptime strftime lat lon (current_start s) ?ce 3
            (st_emit (FetchingWrite (current_start s) ?ce) w)")
      show ?thesis
      proof (cases r)
        case (Inl e)
        with Suc.prems True block f show ?thesis by (simp add: Let_def)
      next
        case rows: (Inr rows)
        show ?thesis
        proof (cases "date_add ?ce 1")
          case (Inl e)
          with Suc.prems True block f rows show ?thesis by (simp add: Let_def)
        next
          case next_start: (Inr next_start)
          let ?s1 = "(process_rows tbase targets ht rows s)\<lparr>current_start := next_start\<rparr>"
          have "while_loop n rem strptime strftime lat lon tbase targets block_days ht limit ?s1 w2
                = Some (Inr s', w')"
            using Suc.prems True block f rows next_start by (simp add: Let_def)
          moreover have "P ?s1"
            using Suc.prems(2) True block f next_start unfolding rows
            by (intro step) simp_all
          ultimately show ?thesis by (rule Suc.IH)
        qed
      qed
    qed
  qed
qed

text \<open>From the head reached after \<open>k\<close> complete iterations the loop goes on as from its start.\<close>

lemma while_loop_from_head:
  "loop_head k rem strptime strftime lat lon tbase targets block_days ht limit s w = Some (s1, w1) \<Longrightarrow>
   while_loop (k + n) rem strptime strftime lat lon tbase targets block_days ht limit s w
     = while_loop n rem strptime strftime lat lon tbase targets block_days ht limit s1 w1"
proof (induction k arbitrary: s w)
  case 0
  then show ?case by simp
next
  case (Suc k)
  then show ?case
    by (auto simp: Let_def split: if_splits sum.splits prod.splits)
qed

lemma simulate_gdd_loop:
  assumes "simulate_gdd fuel rem strptime strftime to_date lat lon start_date tbase targets max_days
             block_days w = Some (Inr (history, stages), w')"
  obtains start_d limit ht s where
    "to_date start_date = Some start_d" "date_add start_d max_days = Inr limit"
    "py_max targets = Inr ht"
    "while_loop fuel rem strptime strftime lat lon tbase targets block_days ht limit
       (initial_state targets start_d) w = Some (Inr s, w')"
    "history = history_rows s" "stages = stage_dates s"
  using assms
  by (auto simp: simulate_gdd_def split: option.splits sum.splits prod.splits)

lemma py_max_Max: "py_max targets = Inr ht \<Longrightarrow> targets \<noteq> [] \<and> ht = Max (set targets)"
proof (cases targets)
  case Nil
  then show "py_max targets = Inr ht \<Longrightarrow> ?thesis" by simp
next
  case (Cons x xs)
  have "foldl max x xs = fold max xs x"
    by (simp add: foldl_conv_fold max.commute)
  then show "py_max targets = Inr ht \<Longrightarrow> ?thesis"
    using Cons Max.set_eq_fold [of x xs] by auto
qed

section \<open>Threshold bookkeeping\<close>

lemma map_of_mark_stages:
  "map_of (mark_stages thrs cum d sd) thr =
     (if thr \<in> set thrs \<and> map_of sd thr = Some None \<and> thr \<le> cum then Some (Some d)
      else map_of sd thr)"
  by (induction thrs arbitrary: sd) (auto simp: update_conv')

lemma map_of_init_aux:
  "map_of (foldl (\<lambda>d thr. AList.update thr None d) acc targets) thr =
     (if thr \<in> set targets then Some None else map_of acc thr)"
  by (induction targets arbitrary: acc) (auto simp: update_conv')

lemma map_of_init_stage_dates:
  "map_of (init_stage_dates targets) thr = (if thr \<in> set targets then Some None else None)"
  by (simp add: init_stage_dates_def map_of_init_aux)

lemma find_snoc:
  "find P (xs @ [x]) = (case find P xs of None \<Rightarrow> (if P x then Some x else None) | Some y \<Rightarrow> Some y)"
  by (induction xs) auto

lemma stage_inv_process_row:
  "stage_inv targets s \<Longrightarrow> stage_inv targets (process_row tbase targets row s)"
  by (auto simp: stage_inv_def process_row_def Let_def map_of_mark_stages first_crossing_def
      find_snoc split: option.splits)

lemma stage_inv_process_rows:
  "stage_inv targets s \<Longrightarrow> stage_inv targets (process_rows tbase targets ht rows s)"
  by (induction rows arbitrary: s) (auto simp: stage_inv_process_row)

lemma stage_inv_current_start:
  "stage_inv targets (s\<lparr>current_start := c\<rparr>) = stage_inv targets s"
  by (simp add: stage_inv_def)

lemma stage_inv_while_loop:
  assumes "while_loop fuel rem strptime strftime lat lon tbase targets block_days ht limit s w
             = Some (Inr s', w')"
    and "stage_inv targets s"
  shows "stage_inv targets s'"
  using assms
  by (rule while_loop_invariant) (simp add: stage_inv_process_rows stage_inv_current_start)

lemma keeps_stage_refl: "keeps_stage thr s s"
  by (simp add: keeps_stage_def)

lemma keeps_stage_trans: "keeps_stage thr s t \<Longrightarrow> keeps_stage thr t u \<Longrightarrow> keeps_stage thr s u"
  by (simp add: keeps_stage_def)

lemma keeps_stage_process_row: "keeps_stage thr s (process_row tbase targets row s)"
  by (simp add: keeps_stage_def process_row_def Let_def map_of_mark_stages)

lemma keeps_stage_process_rows: "keeps_stage thr s (process_rows tbase targets ht rows s)"
proof (induction rows arbitrary: s)
  case Nil
  show ?case by (simp add: keeps_stage_refl)
next
  case (Cons row rows)
  show ?case
    using keeps_stage_trans [OF keeps_stage_process_row Cons.IH]
    by (simp add: keeps_stage_refl)
qed

lemma keeps_stage_current_start:
  "keeps_stage thr s (t\<lparr>current_start := c\<rparr>) = keeps_stage thr s t"
  by (simp add: keeps_stage_def)

lemma keeps_stage_while_loop:
  assumes "while_loop fuel rem strptime strftime lat lon tbase targets block_days ht limit s w
             = Some (Inr s', w')"
  shows "keeps_stage thr s s'"
  using assms keeps_stage_refl [of thr s]
proof (rule while_loop_invariant)
  fix t :: sim_state and rows next_start
  assume "keeps_stage thr s t"
  moreover have "keeps_stage thr t ((process_rows tbase targets ht rows t)\<lparr>current_start := next_start\<rparr>)"
    by (simp add: keeps_stage_current_start keeps_stage_process_rows)
  ultimately show "keeps_stage thr s ((process_rows tbase targets ht rows t)\<lparr>current_start := next_start\<rparr>)"
    by (rule keeps_stage_trans)
qed

lemma scenario_run:
  "simulate_gdd 5 example_remote example_strptime example_strftime example_to_date 13 80 ''2025-01-01'' 10
     [100, 300] 9 30 empty_world
   = Some (Inr (scenario_history, [(100, Some 739258), (300, None)]), scenario_world)"
  by code_simp

text \<open>
  Claim C1. At the end of a run, the entry of every target \<open>thr\<close> in \<^verbatim>\<open>stage_dates\<close> is the date of
  the first processed record whose cumulative GDD reached \<open>thr\<close>, or \<^verbatim>\<open>None\<close> when no record
  reached it. An entry that holds a date keeps that date through every later observation, every
  later block and the rest of the loop, so it is set at most once and never overwritten.
\<close>

theorem stage_dates_first_crossing:
  assumes run: "simulate_gdd fuel rem strptime strftime to_date lat lon start_date tbase targets max_days
                  block_days w = Some (Inr (history, stages), w')"
    and thr: "thr \<in> set targets"
  shows "map_of stages thr = Some (first_crossing thr history) \<and>
         (\<forall>row s. keeps_stage thr s (process_row tbase targets row s)) \<and>
         (\<forall>rows ht s. keeps_stage thr s (process_rows tbase targets ht rows s)) \<and>
         (\<forall>n ht limit s w1 s' w2.
            while_loop n rem strptime strftime lat lon tbase targets block_days ht limit s w1
              = Some (Inr s', w2)
            \<longrightarrow> keeps_stage thr s s')"
proof -
  from run obtain start_d limit ht s where
    loop: "while_loop fuel rem strptime strftime lat lon tbase targets block_days ht limit
       (initial_state targets start_d) w = Some (Inr s, w')"
    and res: "history = history_rows s" "stages = stage_dates s"
    by (rule simulate_gdd_loop)
  have "stage_inv targets (initial_state targets start_d)"
    by (simp add: stage_inv_def initial_state_def map_of_init_stage_dates first_crossing_def)
  with loop have "stage_inv targets s" by (rule stage_inv_while_loop)
  with thr res have "map_of stages thr = Some (first_crossing thr history)"
    by (simp add: stage_inv_def)
  moreover have "keeps_stage thr s1 s2"
    if "while_loop n rem strptime strftime lat lon tbase targets block_days ht1 limit1 s1 w1
          = Some (Inr s2, w2)"
    for n ht1 limit1 s1 w1 s2 w2
    using that by (rule keeps_stage_while_loop)
  ultimately show ?thesis
    by (simp add: keeps_stage_process_row keeps_stage_process_rows)
qed

theorem stage_dates_first_crossing_witness:
  "map_of [(100 :: real, Some (739258 :: date)), (300, None)] 100
     = Some (first_crossing 100 scenario_history)
   \<and> first_crossing 100 scenario_history = Some 739258
   \<and> first_crossing 300 scenario_history = None"
  using stage_dates_first_crossing [OF scenario_run, of 100]
        stage_dates_first_crossing [OF scenario_run, of 300]
  by simp

section \<open>Order of the history\<close>

lemma history_process_row:
  "history_rows (process_row tbase targets row s) =
     history_rows s @ [\<lparr>date = date row, T2M_MAX = T2M_MAX row, T2M_MIN = T2M_MIN row,
        GDD_day = daily_gdd (T2M_MAX row) (T2M_MIN row) tbase,
        GDD_cum = cum_gdd s + daily_gdd (T2M_MAX row) (T2M_MIN row) tbase\<rparr>]"
  by (simp add: process_row_def Let_def)

lemma cum_process_row:
  "cum_gdd (process_row tbase targets row s) =
     cum_gdd s + daily_gdd (T2M_MAX row) (T2M_MIN row) tbase"
  by (simp add: process_row_def Let_def)

lemma current_start_process_row:
  "current_start (process_row tbase targets row s) = current_start s"
  by (simp add: process_row_def Let_def)

lemma cum_inv_process_row: "cum_inv s \<Longrightarrow> cum_inv (process_row tbase targets row s)"
  using daily_gdd_nonneg [of "T2M_MAX row" "T2M_MIN row" tbase]
  by (fastforce simp: cum_inv_def history_process_row cum_process_row sorted_wrt_append)

lemma cum_inv_process_rows: "cum_inv s \<Longrightarrow> cum_inv (process_rows tbase targets ht rows s)"
  by (induction rows arbitrary: s) (auto simp: cum_inv_process_row)

lemma cum_inv_current_start: "cum_inv (s\<lparr>current_start := c\<rparr>) = cum_inv s"
  by (simp add: cum_inv_def)

lemma cum_inv_while_loop:
  assumes "while_loop fuel rem strptime strftime lat lon tbase targets block_days ht limit s w
             = Some (Inr s', w')"
    and "cum_inv s"
  shows "cum_inv s'"
  using assms
  by (rule while_loop_invariant) (simp add: cum_inv_process_rows cum_inv_current_start)

lemma process_rows_dates:
  "sorted_wrt (<) (map date (history_rows s) @ map date rows) \<Longrightarrow>
   sorted_wrt (<) (map date (history_rows (process_rows tbase targets ht rows s))) \<and>
   date ` set (history_rows (process_rows tbase targets ht rows s))
     \<subseteq> date ` set (history_rows s) \<union> date ` set rows"
proof (induction rows arbitrary: s)
  case Nil
  then show ?case by simp
next
  case (Cons row rows)
  show ?case
  proof (cases "ht \<le> cum_gdd s")
    case True
    with Cons.prems show ?thesis by (auto simp: sorted_wrt_append)
  next
    case False
    have "sorted_wrt (<) (map date (history_rows (process_row tbase targets row s)) @ map date rows)"
      using Cons.prems by (simp add: history_process_row)
    from Cons.IH [OF this] False show ?thesis
      by (auto simp: history_process_row)
  qed
qed

lemma current_start_process_rows:
  "current_start (process_rows tbase targets ht rows s) = current_start s"
  by (induction rows arbitrary: s) (auto simp: current_start_process_row)

lemma date_inv_block:
  assumes inv: "date_inv s"
    and rows: "sorted_wrt (<) (map date rows)" "\<forall>r \<in> set rows. current_start s \<le> date r \<and> date r \<le> ce"
    and ce: "current_start s \<le> ce"
  shows "date_inv ((process_rows tbase targets ht rows s)\<lparr>current_start := ce + 1\<rparr>)"
proof -
  have "sorted_wrt (<) (map date (history_rows s) @ map date rows)"
    using inv rows by (fastforce simp: date_inv_def sorted_wrt_append)
  from process_rows_dates [OF this, of tbase targets ht]
  have s: "sorted_wrt (<) (map date (history_rows (process_rows tbase targets ht rows s)))"
    and sub: "date ` set (history_rows (process_rows tbase targets ht rows s))
               \<subseteq> date ` set (history_rows s) \<union> date ` set rows"
    by simp_all
  have "date r < ce + 1" if "r \<in> set (history_rows (process_rows tbase targets ht rows s))" for r
  proof -
    from that sub have "date r \<in> date ` set (history_rows s) \<union> date ` set rows" by blast
    then show ?thesis using inv rows(2) ce by (fastforce simp: date_inv_def)
  qed
  with s show ?thesis by (simp add: date_inv_def)
qed

lemma date_inv_while_loop:
  assumes blocks: "\<forall>w lo hi rows w1.
        get_power_daily_tmax_tmin rem strptime strftime lat lon lo hi 3 w = (Inr rows, w1) \<longrightarrow>
        sorted_wrt (<) (map date rows) \<and> (\<forall>r \<in> set rows. lo \<le> date r \<and> date r \<le> hi)"
    and bd: "1 \<le> block_days"
    and run: "while_loop fuel rem strptime strftime lat lon tbase targets block_days ht limit s w
                = Some (Inr s', w')"
    and inv: "date_inv s"
  shows "date_inv s'"
  using run inv
proof (rule while_loop_invariant)
  fix t :: sim_state and w1 block_last rows w2 next_start
  assume t: "date_inv t" "current_start t \<le> limit"
    and block: "date_add (current_start t) (block_days - 1) = Inr block_last"
    and fetch: "get_power_daily_tmax_tmin rem strptime strftime lat lon (current_start t)
                  (min block_last limit) 3
                  (st_emit (FetchingWrite (current_start t) (min block_last limit)) w1)
                = (Inr rows, w2)"
    and nxt: "date_add (min block_last limit) 1 = Inr next_start"
  have "block_last = current_start t + (block_days - 1)"
    using block by (rule date_add_Inr)
  then have ce: "current_start t \<le> min block_last limit" using t(2) bd by simp
  have n: "next_start = min block_last limit + 1" using nxt by (rule date_add_Inr)
  have "sorted_wrt (<) (map date rows) \<and>
        (\<forall>r \<in> set rows. current_start t \<le> date r \<and> date r \<le> min block_last limit)"
    using blocks fetch by blast
  then show "date_inv ((process_rows tbase targets ht rows t)\<lparr>current_start := next_start\<rparr>)"
    unfolding n using date_inv_block [OF t(1) _ _ ce] by blast
qed

lemma empty_history_while_loop:
  assumes blocks: "\<forall>w lo hi rows w1.
        get_power_daily_tmax_tmin rem strptime strftime lat lon lo hi 3 w = (Inr rows, w1) \<longrightarrow>
        sorted_wrt (<) (map date rows) \<and> (\<forall>r \<in> set rows. lo \<le> date r \<and> date r \<le> hi)"
    and bd: "block_days < 1"
    and run: "while_loop fuel rem strptime strftime lat lon tbase targets block_days ht limit s w
                = Some (Inr s', w')"
    and inv: "history_rows s = []"
  shows "history_rows s' = []"
  using run inv
proof (rule while_loop_invariant)
  fix t :: sim_state and w1 block_last rows w2 next_start
  assume t: "history_rows t = []"
    and block: "date_add (current_start t) (block_days - 1) = Inr block_last"
    and fetch: "get_power_daily_tmax_tmin rem strptime strftime lat lon (current_start t)
                  (min block_last limit) 3
                  (st_emit (FetchingWrite (current_start t) (min block_last limit)) w1)
                = (Inr rows, w2)"
  have "block_last = current_start t + (block_days - 1)"
    using block by (rule date_add_Inr)
  then have ce: "min block_last limit < current_start t" using bd by simp
  have "\<forall>r \<in> set rows. current_start t \<le> date r \<and> date r \<le> min block_last limit"
    using blocks fetch by blast
  with ce have "rows = []" by (cases rows) fastforce+
  with t show "history_rows ((process_rows tbase targets ht rows t)\<lparr>current_start := next_start\<rparr>) = []"
    by simp
qed

lemma example_calendar_sorted:
  "sorted (map fst example_calendar)" "sorted_wrt (\<lambda>a b. snd a < snd b) example_calendar"
  "distinct (map fst example_calendar)"
  by (simp_all add: example_calendar_def)

lemma example_strptime_strftime:
  assumes "example_strftime d = Some k"
  shows "example_strptime k = Some d"
proof -
  from assms have "(d, k) \<in> set (map (\<lambda>(k, d). (d, k)) example_calendar)"
    unfolding example_strftime_def by (rule map_of_SomeD)
  then have "(k, d) \<in> set example_calendar" by auto
  then show ?thesis
    unfolding example_strptime_def using example_calendar_sorted(3) by simp
qed

lemma example_blocks:
  assumes "get_power_daily_tmax_tmin example_remote example_strptime example_strftime lat lon
             lo hi 3 w = (Inr rows, w1)"
  shows "sorted_wrt (<) (map date rows) \<and> (\<forall>r \<in> set rows. lo \<le> date r \<and> date r \<le> hi)"
proof -
  from assms obtain lo_str hi_str where
    str: "example_strftime lo = Some lo_str" "example_strftime hi = Some hi_str"
    by (auto simp: get_power_daily_tmax_tmin_def split: option.splits)
  let ?req = "\<lparr>latitude = lat, longitude = lon, range_start = lo_str, range_end = hi_str\<rparr>"
  let ?sel = "filter (\<lambda>(k, d). lo \<le> d \<and> d \<le> hi) example_calendar"
  have parsed: "example_strptime lo_str = Some lo" "example_strptime hi_str = Some hi"
    using str by (simp_all add: example_strptime_strftime)
  have keys: "map fst (example_series ?req v) = map fst ?sel" for v
    by (simp add: example_series_def parsed case_prod_unfold comp_def)
  have "sorted (map fst ?sel)"
    using example_calendar_sorted(1) by (rule sorted_filter)
  then have srt: "sort (map fst ?sel) = map fst ?sel" by (rule sorted_sort_id)
  have "retry_loop example_remote ?req 3 1 w = (Inr (example_body ?req), net_emit (PowerGet ?req) w)"
    by (rule retry_loop_success [of _ _ _ 200]) (simp_all add: example_remote_def)
  with assms have "parse_rows example_strptime (example_body ?req) = Inr rows"
    by (simp add: get_power_daily_tmax_tmin_def str)
  then have "build_rows example_strptime (example_series ?req 30) (example_series ?req 20)
               (map fst ?sel) = Inr rows"
    by (simp add: parse_rows_def example_body_def getitem_def keys srt)
  then have "map (\<lambda>r. Some (date r)) rows = map example_strptime (map fst ?sel)"
    by (rule build_rows_dates)
  also have "\<dots> = map (\<lambda>p. Some (snd p)) ?sel"
    using example_calendar_sorted(3) by (auto simp: example_strptime_def)
  finally have "map Some (map date rows) = map Some (map snd ?sel)" by (simp add: comp_def)
  then have dates: "map date rows = map snd ?sel"
    by (simp only: inj_map_eq_map [OF inj_Some])
  have "sorted_wrt (\<lambda>a b. snd a < snd b) ?sel"
    using example_calendar_sorted(2) by (rule sorted_wrt_filter)
  then have "sorted_wrt (<) (map date rows)" by (simp add: dates sorted_wrt_map)
  moreover have "\<forall>d \<in> set (map date rows). lo \<le> d \<and> d \<le> hi"
    unfolding dates by auto
  ultimately show ?thesis by simp
qed

text \<open>
  Claim C3. Suppose that every block the client returns is in strictly ascending order of date
  and lies inside the requested range (the engine requests disjoint ranges in ascending order).
  Then in the history of a run the cumulative GDD never decreases, and the dates increase
  strictly, so no date occurs twice.
\<close>

theorem history_is_ordered:
  assumes run: "simulate_gdd fuel rem strptime strftime to_date lat lon start_date tbase targets max_days
                  block_days w = Some (Inr (history, stages), w')"
    and blocks: "\<forall>w lo hi rows w1.
        get_power_daily_tmax_tmin rem strptime strftime lat lon lo hi 3 w = (Inr rows, w1) \<longrightarrow>
        sorted_wrt (<) (map date rows) \<and> (\<forall>r \<in> set rows. lo \<le> date r \<and> date r \<le> hi)"
  shows "sorted_wrt (\<le>) (map GDD_cum history) \<and> sorted_wrt (<) (map date history) \<and>
         distinct (map date history)"
proof -
  from run obtain start_d limit ht s where
    loop: "while_loop fuel rem strptime strftime lat lon tbase targets block_days ht limit
       (initial_state targets start_d) w = Some (Inr s, w')"
    and res: "history = history_rows s"
    by (rule simulate_gdd_loop)
  let ?s0 = "initial_state targets start_d"
  have "cum_inv ?s0" by (simp add: cum_inv_def initial_state_def)
  with loop have "cum_inv s" by (rule cum_inv_while_loop)
  then have c: "sorted_wrt (\<le>) (map GDD_cum history)" by (simp add: cum_inv_def res)
  have d: "sorted_wrt (<) (map date history)"
  proof (cases "1 \<le> block_days")
    case True
    have "date_inv ?s0" by (simp add: date_inv_def initial_state_def)
    with loop have "date_inv s" by (rule date_inv_while_loop [OF blocks True])
    then show ?thesis by (simp add: date_inv_def res)
  next
    case False
    then have "block_days < 1" by simp
    moreover have "history_rows ?s0 = []" by (simp add: initial_state_def)
    ultimately show ?thesis
      using empty_history_while_loop [OF blocks _ loop] by (simp add: res)
  qed
  have "distinct (map date history)"
    using d by (simp add: strict_sorted_iff)
  with c d show ?thesis by simp
qed

theorem history_is_ordered_witness:
  "sorted_wrt (\<le>) (map GDD_cum scenario_history) \<and> sorted_wrt (<) (map date scenario_history) \<and>
   distinct (map date scenario_history) \<and> length scenario_history = 10"
proof -
  have "\<forall>w lo hi rows w1.
        get_power_daily_tmax_tmin example_remote example_strptime example_strftime 13 80 lo hi 3 w = (Inr rows, w1)
        \<longrightarrow> sorted_wrt (<) (map date rows) \<and> (\<forall>r \<in> set rows. lo \<le> date r \<and> date r \<le> hi)"
    using example_blocks by blast
  from history_is_ordered [OF scenario_run this] show ?thesis
    by (simp add: scenario_history_def)
qed

section \<open>Termination\<close>

lemma while_loop_returns:
  assumes bd: "1 \<le> block_days"
  shows "nat (limit + 1 - current_start s) < fuel \<Longrightarrow>
    \<exists>r. while_loop fuel rem strptime strftime lat lon tbase targets block_days ht limit s w = Some r"
proof (induction fuel arbitrary: s w)
  case 0
  then show ?case by simp
next
  case (Suc n)
  show ?case
  proof (cases "cum_gdd s < ht \<and> current_start s \<le> limit")
    case False
    then show ?thesis by auto
  next
    case True
    show ?thesis
    proof (cases "date_add (current_start s) (block_days - 1)")
      case (Inl e)
      with True show ?thesis by simp
    next
      case block: (Inr block_last)
      let ?ce = "min block_last limit"
      have bl: "block_last = current_start s + (block_days - 1)"
        using block by (rule date_add_Inr)
      obtain r w2 where f: "get_power_daily_tmax_tmin rem strptime strftime lat lon (current_start s) ?ce 3
            (st_emit (FetchingWrite (current_start s) ?ce) w) = (r, w2)"
        by (cases "get_power_daily_tmax_tmin rem strptime strftime lat lon (current_start s) ?ce 3
            (st_emit (FetchingWrite (current_start s) ?ce) w)")
      show ?thesis
      proof (cases r)
        case (Inl e)
        with True block f show ?thesis by (simp add: Let_def)
      next
        case rows: (Inr rows)
        show ?thesis
        proof (cases "date_add ?ce 1")
          case (Inl e)
          with True block f rows show ?thesis by (simp add: Let_def)
        next
          case nxt: (Inr next_start)
          let ?s1 = "(process_rows tbase targets ht rows s)\<lparr>current_start := next_start\<rparr>"
          have "next_start = ?ce + 1" using nxt by (rule date_add_Inr)
          then have "nat (limit + 1 - current_start ?s1) < n"
            using Suc.prems True bd bl by (simp add: min_def) linarith
          from Suc.IH [OF this] show ?thesis
            using True block f rows nxt by (simp add: Let_def)
        qed
      qed
    qed
  qed
qed

lemma simulate_gdd_returns:
  assumes "1 \<le> block_days" "nat (max_days + 1) < fuel"
  shows "\<exists>r. simulate_gdd fuel rem strptime strftime to_date lat lon start_date tbase targets max_days
            block_days w = Some r"
proof (cases "to_date start_date")
  case None
  then show ?thesis by (simp add: simulate_gdd_def)
next
  case (Some d)
  show ?thesis
  proof (cases "date_add d max_days")
    case (Inl e)
    with Some show ?thesis by (simp add: simulate_gdd_def)
  next
    case lim: (Inr limit)
    show ?thesis
    proof (cases "py_max targets")
      case (Inl e)
      with Some lim show ?thesis by (simp add: simulate_gdd_def)
    next
      case (Inr ht)
      have "limit = d + max_days" using lim by (rule date_add_Inr)
      then have "nat (limit + 1 - current_start (initial_state targets d)) < fuel"
        using assms(2) by (simp add: initial_state_def)
      from while_loop_returns [OF assms(1) this, of rem strptime strftime lat lon tbase targets ht w]
      show ?thesis using Some lim Inr
        by (auto simp: simulate_gdd_def split: sum.splits)
    qed
  qed
qed

text \<open>More iterations allowed do not change a result.\<close>

lemma while_loop_more_fuel:
  "while_loop n rem strptime strftime lat lon tbase targets block_days ht limit s w = Some r \<Longrightarrow>
   while_loop (n + k) rem strptime strftime lat lon tbase targets block_days ht limit s w = Some r"
proof (induction n arbitrary: s w)
  case 0
  then show ?case by simp
next
  case (Suc n)
  then show ?case
    by (auto simp: Let_def split: if_splits prod.splits sum.splits)
qed

lemma simulate_gdd_more_fuel:
  "simulate_gdd n rem strptime strftime to_date lat lon start_date tbase targets max_days block_days w
     = Some r \<Longrightarrow>
   simulate_gdd (n + k) rem strptime strftime to_date lat lon start_date tbase targets max_days block_days w
     = Some r"
  by (auto simp: simulate_gdd_def while_loop_more_fuel
      split: option.splits sum.splits prod.splits)

section \<open>Stopping at the highest target\<close>

lemma process_rows_stop:
  "highest_target \<le> cum_gdd s \<Longrightarrow> process_rows tbase targets highest_target rows s = s"
  by (cases rows) simp_all

lemma target_inv_process_row:
  assumes "target_inv ht s" "cum_gdd s < ht"
  shows "target_inv ht (process_row tbase targets row s)"
proof -
  have "GDD_cum r < ht" if "r \<in> set (history_rows s)" for r
  proof (cases "r = last (history_rows s)")
    case True
    with that assms show ?thesis by (auto simp: target_inv_def)
  next
    case False
    with that have "r \<in> set (butlast (history_rows s))"
      by (cases "history_rows s" rule: rev_cases) auto
    with assms(1) show ?thesis by (simp add: target_inv_def)
  qed
  then show ?thesis
    by (simp add: target_inv_def history_process_row cum_process_row)
qed

lemma target_inv_process_rows:
  "target_inv ht s \<Longrightarrow> target_inv ht (process_rows tbase targets ht rows s)"
  by (induction rows arbitrary: s) (auto simp: target_inv_process_row)

lemma target_inv_current_start: "target_inv ht (s\<lparr>current_start := c\<rparr>) = target_inv ht s"
  by (simp add: target_inv_def)

lemma target_inv_while_loop:
  assumes "while_loop fuel rem strptime strftime lat lon tbase targets block_days ht limit s w
             = Some (Inr s', w')"
    and "target_inv ht s"
  shows "target_inv ht s'"
  using assms
  by (rule while_loop_invariant) (simp add: target_inv_process_rows target_inv_current_start)

lemma while_loop_at_target:
  "ht \<le> cum_gdd s \<Longrightarrow>
   while_loop (Suc n) rem strptime strftime lat lon tbase targets block_days ht limit s w = Some (Inr s, w)"
  by simp

lemma stop_run:
  "simulate_gdd 5 example_remote example_strptime example_strftime example_to_date 13 80 ''2025-01-01'' 10
     [100] 9 8 empty_world
   = Some (Inr (stop_history, [(100, Some 739258)]), stop_world)"
  by code_simp

lemma stop_history_values:
  "map GDD_cum (butlast stop_history) = [15, 30, 45, 60, 75, 90]"
  by code_simp

lemma stop_head:
  "loop_head 1 example_remote example_strptime example_strftime 13 80 10 [100] 8 100 739261
     (initial_state [100] 739252) empty_world = Some (stop_state, stop_world)"
  by code_simp

text \<open>
  Claim C4. Take a run of \<^verbatim>\<open>simulate_gdd\<close> that returns. In its history no record but the last
  has a cumulative GDD that reaches \<^verbatim>\<open>max(targets)\<close>: once an observation brings the sum to the
  highest target, no further observation is processed, in that block or later. And when the sum
  has reached \<^verbatim>\<open>max(targets)\<close> at the head of the fetch loop, after any number of complete
  blocks, the run returns the history and the stage dates of that very state, and the world
  at the return is the world at that head: no further request is sent (and no message shown).
\<close>

theorem engine_stops_at_highest_target:
  assumes run: "simulate_gdd fuel rem strptime strftime to_date lat lon start_date tbase targets max_days
                  block_days w = Some (Inr (history, stages), w')"
    and start: "to_date start_date = Some start_d"
               "date_add start_d max_days = Inr end_date_limit"
  shows "(\<forall>r \<in> set (butlast history). GDD_cum r < Max (set targets)) \<and>
         (\<forall>k s w1.
            loop_head k rem strptime strftime lat lon tbase targets block_days (Max (set targets))
              end_date_limit (initial_state targets start_d) w = Some (s, w1) \<and>
            Max (set targets) \<le> cum_gdd s
            \<longrightarrow> history = history_rows s \<and> stages = stage_dates s \<and> w' = w1)"
proof -
  from run obtain start_d' limit ht s_end where
    "to_date start_date = Some start_d'" "date_add start_d' max_days = Inr limit"
    and ht: "py_max targets = Inr ht"
    and loop': "while_loop fuel rem strptime strftime lat lon tbase targets block_days ht limit
       (initial_state targets start_d') w = Some (Inr s_end, w')"
    and res: "history = history_rows s_end" "stages = stage_dates s_end"
    by (rule simulate_gdd_loop)
  with start have "start_d' = start_d" "limit = end_date_limit" by simp_all
  moreover from ht have "ht = Max (set targets)" by (simp add: py_max_Max)
  ultimately have loop: "while_loop fuel rem strptime strftime lat lon tbase targets block_days
       (Max (set targets)) end_date_limit (initial_state targets start_d) w = Some (Inr s_end, w')"
    using loop' by simp
  have "target_inv (Max (set targets)) (initial_state targets start_d)"
    by (simp add: target_inv_def initial_state_def)
  with loop have "target_inv (Max (set targets)) s_end" by (rule target_inv_while_loop)
  then have first: "\<forall>r \<in> set (butlast history). GDD_cum r < Max (set targets)"
    by (simp add: target_inv_def res)
  have second: "history = history_rows s \<and> stages = stage_dates s \<and> w' = w1"
    if head: "loop_head k rem strptime strftime lat lon tbase targets block_days (Max (set targets))
                end_date_limit (initial_state targets start_d) w = Some (s, w1)"
      and reached: "Max (set targets) \<le> cum_gdd s"
    for k s w1
  proof -
    have "while_loop (k + Suc fuel) rem strptime strftime lat lon tbase targets block_days
            (Max (set targets)) end_date_limit (initial_state targets start_d) w
          = while_loop (Suc fuel) rem strptime strftime lat lon tbase targets block_days
              (Max (set targets)) end_date_limit s w1"
      using head by (rule while_loop_from_head)
    also have "\<dots> = Some (Inr s, w1)"
      using reached by (rule while_loop_at_target)
    finally have "while_loop (fuel + Suc k) rem strptime strftime lat lon tbase targets block_days
            (Max (set targets)) end_date_limit (initial_state targets start_d) w
          = Some (Inr s, w1)"
      by (simp add: add.commute)
    moreover have "while_loop (fuel + Suc k) rem strptime strftime lat lon tbase targets block_days
            (Max (set targets)) end_date_limit (initial_state targets start_d) w
          = Some (Inr s_end, w')"
      using loop by (rule while_loop_more_fuel)
    ultimately show ?thesis by (simp add: res)
  qed
  from first second show ?thesis by blast
qed

theorem engine_stops_at_highest_target_witness:
  "map GDD_cum (butlast stop_history) = [15, 30, 45, 60, 75, 90]
   \<and> Max (set [100 :: real]) = 100
   \<and> cum_gdd stop_state = 105
   \<and> history_rows stop_state = stop_history
   \<and> stage_dates stop_state = [(100, Some 739258)]
   \<and> net_log stop_world = [PowerGet \<lparr>latitude = 13, longitude = 80, range_start = ''20250101'',
                                       range_end = ''20250108''\<rparr>]"
proof -
  have start: "example_to_date ''2025-01-01'' = Some 739252" "date_add 739252 9 = Inr 739261"
    by (simp_all add: example_to_date_def date_add_def)
  have m: "Max (set [100 :: real]) = 100" by simp
  have head: "loop_head 1 example_remote example_strptime example_strftime 13 80 10 [100] 8 (Max (set [100]))
                739261 (initial_state [100] 739252) empty_world = Some (stop_state, stop_world)"
    unfolding m by (rule stop_head)
  have reached: "Max (set [100 :: real]) \<le> cum_gdd stop_state"
    by (simp add: stop_state_def)
  note stops = engine_stops_at_highest_target [OF stop_run, OF start(1), OF start(2)]
  from stops [THEN conjunct2, rule_format, OF conjI [OF head reached]]
  have "stop_history = history_rows stop_state \<and>
        [(100, Some 739258)] = stage_dates stop_state \<and> stop_world = stop_world" .
  then show ?thesis
    by (simp add: stop_state_def stop_world_def stop_history_values)
qed

section \<open>Failure of a fetch\<close>

lemma first_block_head:
  "loop_head 1 failing_later_remote example_strptime example_strftime 13 80 10 [50, 300] 5 300 739261
     (initial_state [50, 300] 739252) empty_world
   = Some (state_after_first_block, world_after_first_block)"
  by code_simp

lemma second_block_fails:
  "get_power_daily_tmax_tmin failing_later_remote example_strptime example_strftime 13 80 739257 739261 3
     (st_emit (FetchingWrite 739257 739261) world_after_first_block)
   = (Inl (HTTPError 404),
      \<lparr>net_log = [PowerGet first_block_request, PowerGet second_block_request],
        st_log = [FetchingWrite 739252 739256, FetchingWrite 739257 739261]\<rparr>)"
  by code_simp

text \<open>
  Claim C5, as the code has it. Let a run of \<^verbatim>\<open>simulate_gdd\<close> stand at the head of the fetch
  loop in a state \<open>s\<close>, after any number of complete blocks, and let the fetch of the next block
  fail. Then the run ends at once and \<^verbatim>\<open>simulate_gdd\<close> returns the history and the stage dates
  of \<open>s\<close>: every record and every stage entry produced before the failure. The failure is
  reported by the two messages \<^verbatim>\<open>st.error\<close> and \<^verbatim>\<open>st.info\<close> on the page, after which nothing
  is sent or shown; the returned value is the pair of the history and the stage dates only.
\<close>

theorem fetch_failure_returns_progress:
  assumes start: "to_date start_date = Some start_d"
                 "date_add start_d max_days = Inr end_date_limit"
                 "py_max targets = Inr highest_target"
    and head: "loop_head k rem strptime strftime lat lon tbase targets block_days highest_target
                 end_date_limit (initial_state targets start_d) w = Some (s, w1)"
    and guard: "cum_gdd s < highest_target" "current_start s \<le> end_date_limit"
    and block: "date_add (current_start s) (block_days - 1) = Inr block_last"
               "current_end = min block_last end_date_limit"
    and fail: "get_power_daily_tmax_tmin rem strptime strftime lat lon (current_start s) current_end 3
                 (st_emit (FetchingWrite (current_start s) current_end) w1) = (Inl e, w2)"
  shows "simulate_gdd (Suc (k + n)) rem strptime strftime to_date lat lon start_date tbase targets max_days
           block_days w
         = Some (Inr (history_rows s, stage_dates s),
             st_emit TryLaterInfo (st_emit (StoppedError (current_start s) current_end) w2))"
proof -
  have "while_loop (k + Suc n) rem strptime strftime lat lon tbase targets block_days highest_target
          end_date_limit (initial_state targets start_d) w
        = while_loop (Suc n) rem strptime strftime lat lon tbase targets block_days highest_target
            end_date_limit s w1"
    using head by (rule while_loop_from_head)
  also have "\<dots> = Some (Inr s,
      st_emit TryLaterInfo (st_emit (StoppedError (current_start s) current_end) w2))"
    using guard block fail by (simp add: Let_def)
  finally show ?thesis
    using start by (simp add: simulate_gdd_def)
qed

theorem fetch_failure_returns_progress_witness:
  "simulate_gdd (Suc (1 + 0)) failing_later_remote example_strptime example_strftime example_to_date 13 80
     ''2025-01-01'' 10 [50, 300] 9 5 empty_world
   = Some (Inr (partial_history, [(50, Some 739255), (300, None)]),
       \<lparr>net_log = [PowerGet first_block_request, PowerGet second_block_request],
         st_log = [FetchingWrite 739252 739256, FetchingWrite 739257 739261,
                   StoppedError 739257 739261, TryLaterInfo]\<rparr>)"
  using fetch_failure_returns_progress [where to_date = example_to_date
          and start_date = "''2025-01-01''" and start_d = 739252 and max_days = 9
          and end_date_limit = 739261 and targets = "[50, 300]" and highest_target = 300
          and k = 1 and rem = failing_later_remote and strptime = example_strptime
          and strftime = example_strftime
          and lat = 13 and lon = 80 and tbase = 10 and block_days = 5 and w = empty_world
          and s = state_after_first_block and ?w1.0 = world_after_first_block
          and block_last = 739261 and current_end = 739261 and n = 0,
          OF _ _ _ first_block_head]
        second_block_fails
  by (simp add: example_to_date_def date_add_def state_after_first_block_def st_emit_def)

text \<open>
  Claim C5 as stated fails: with the same inputs, a run whose second fetch fails with status 404
  and a run whose second block comes back without any day (and which ends at the horizon) return
  the same history and the same \<^verbatim>\<open>stage_dates\<close>; only the messages on the page differ.
\<close>

theorem no_failure_indicator_counterexample:
  "simulate_gdd 5 failing_later_remote example_strptime example_strftime example_to_date 13 80 ''2025-01-01'' 10
     [50, 300] 9 5 empty_world
   = Some (Inr (partial_history, [(50, Some 739255), (300, None)]),
       \<lparr>net_log = [PowerGet first_block_request, PowerGet second_block_request],
         st_log = [FetchingWrite 739252 739256, FetchingWrite 739257 739261,
                   StoppedError 739257 739261, TryLaterInfo]\<rparr>)
   \<and> simulate_gdd 5 sparse_later_remote example_strptime example_strftime example_to_date 13 80 ''2025-01-01'' 10
     [50, 300] 9 5 empty_world
   = Some (Inr (partial_history, [(50, Some 739255), (300, None)]),
       \<lparr>net_log = [PowerGet first_block_request, PowerGet second_block_request],
         st_log = [FetchingWrite 739252 739256, FetchingWrite 739257 739261]\<rparr>)"
  by code_simp

section \<open>Horizon and targets\<close>

text \<open>
  Claim C8, as the code has it. When the start date lies after the horizon end (\<^verbatim>\<open>max_days\<close> is
  negative), the horizon end \<^verbatim>\<open>start_date + timedelta(days=max_days)\<close> is itself a date that
  Python can represent, and there is at least one target, the run returns an empty history and
  \<^verbatim>\<open>stage_dates\<close> with every target unset, without an exception, a request or a message.
\<close>

theorem start_after_horizon:
  assumes "to_date start_date = Some start_d" and "targets \<noteq> []" and "max_days < 0"
    and "date_add start_d max_days = Inr end_date_limit"
  shows "simulate_gdd (Suc n) rem strptime strftime to_date lat lon start_date tbase targets max_days
           block_days w = Some (Inr ([], init_stage_dates targets), w) \<and>
         (\<forall>thr \<in> set targets. map_of (init_stage_dates targets) thr = Some None)"
proof -
  have "end_date_limit = start_d + max_days" using assms(4) by (rule date_add_Inr)
  with assms show ?thesis
    by (cases targets)
       (simp_all add: simulate_gdd_def initial_state_def map_of_init_stage_dates)
qed

theorem start_after_horizon_witness:
  "simulate_gdd (Suc 0) example_remote example_strptime example_strftime example_to_date 13 80 ''2025-01-01'' 10
     [100, 300] (- 1) 30 empty_world
   = Some (Inr ([], [(100, None), (300, None)]), empty_world)
   \<and> map_of (init_stage_dates [100, 300]) 100 = Some None
   \<and> map_of (init_stage_dates [100, 300]) 300 = Some None"
  using start_after_horizon [of example_to_date "''2025-01-01''" 739252 "[100, 300]" "- 1" 739251
          0 example_remote example_strptime example_strftime 13 80 10 30 empty_world]
  by (simp add: example_to_date_def init_stage_dates_def date_add_def)

text \<open>
  Claim C8 as stated fails where the start date equals the horizon end (\<^verbatim>\<open>max_days = 0\<close>): the
  guard \<^verbatim>\<open>current_start <= end_date_limit\<close> holds, the block of that single day is fetched and
  its observation is recorded.
\<close>

theorem start_at_horizon_counterexample:
  "simulate_gdd 5 example_remote example_strptime example_strftime example_to_date 13 80 ''2025-01-01'' 10
     [100, 300] 0 30 empty_world
   = Some (Inr ([\<lparr>date = 739252, T2M_MAX = 30, T2M_MIN = 20, GDD_day = 15, GDD_cum = 15\<rparr>],
                [(100, None), (300, None)]),
       \<lparr>net_log = [PowerGet \<lparr>latitude = 13, longitude = 80, range_start = ''20250101'',
                              range_end = ''20250101''\<rparr>],
         st_log = [FetchingWrite 739252 739252]\<rparr>)"
  by code_simp

text \<open>
  Claim C10. With an empty collection of targets \<^verbatim>\<open>simulate_gdd\<close> raises before the loop, and the
  world is unchanged: no request was sent. The exception is the \<^verbatim>\<open>ValueError\<close> of
  \<^verbatim>\<open>max(targets)\<close> whenever the start date can be read and the horizon end is a date (a start
  date that cannot be read and a horizon end out of range raise some lines earlier).
\<close>

theorem empty_targets_raise:
  "simulate_gdd fuel rem strptime strftime to_date lat lon start_date tbase [] max_days block_days w
   = Some (Inl (case to_date start_date of
                  None \<Rightarrow> DateParseError
                | Some start_d \<Rightarrow>
                    (case date_add start_d max_days of Inl e \<Rightarrow> e | Inr limit \<Rightarrow> ValueError)),
           w)"
  by (simp add: simulate_gdd_def split: option.splits sum.splits)

section \<open>Targets typed by the user\<close>

lemma py_int_examples:
  "py_int ''100'' = Some 100" "py_int '' -5 '' = Some (- 5)" "py_int ''1_000'' = Some 1000"
  "py_int ''1__0'' = None" "py_int ''abc'' = None" "py_int '''' = None" "py_int ''+7'' = Some 7"
  "py_int ''12a'' = None" "py_int ''_1'' = None" "py_int ''1_'' = None"
  "parse_targets ''300, 100,,100'' = Some [100, 300]" "parse_targets '''' = Some []"
  "split_on CHR '','' ''a,,b,'' = [''a'', '''', ''b'', '''']"
  by code_simp+






end
